theory Spec2Isabelle
  imports Complex_Main "HOL-Library.Sublist"
begin

section \<open>Values, errors and the interpreter state\<close>

text \<open>
  The module \<open>dataset/transforms.py\<close> keeps one global dictionary, \<open>AUG_METHODS\<close>,
  from names to factory functions, and builds transform objects by calling those
  factories. Python exceptions are values of type \<open>error\<close>; a computation that may
  raise and that touches the global state has type
  \<open>world \<Rightarrow> (error + result) \<times> world\<close>. The messages of the module's
  assertions are not ASCII in the source and are given in English here.
\<close>

datatype error =
    ValueError string
  | KeyError string
  | AssertionError string
  | IndexError string
  | TypeError string
  | SyntaxError string

text \<open>Configuration values as they arrive from the configuration loader.\<close>

datatype pyval =
    PNone
  | PBool bool
  | PInt int
  | PStr string
  | PList "pyval list"
  | PDict "(string \<times> pyval) list"

text \<open>
  Objects live in a store and are named by references, so that two lists holding the
  same object can be told apart from two lists holding equal objects.
\<close>

type_synonym ref = nat

text \<open>
  The three ways the module calls a registered factory: \<open>f()\<close>, \<open>f(**params)\<close> and
  \<open>f(choice_aug_list)\<close>.
\<close>

datatype call_args =
    NoArgs
  | KwArgs "(string \<times> pyval) list"
  | Positional "ref list"

text \<open>
  A Python function object is either made by a \<open>def\<close>, and then has a name and a
  body, or it is the wrapper that \<open>register_method\<close> makes around a function with
  \<open>functools.wraps\<close>. The bodies are values of a type \<open>'c\<close>; what running a body does
  is given by an interpreter, below.
\<close>

datatype 'c pyfunc =
    Def string 'c
  | Wrapper "'c pyfunc"

text \<open>\<open>fn.__name__\<close>; \<open>functools.wraps\<close> copies it from the wrapped function.\<close>

primrec fn_name :: "'c pyfunc \<Rightarrow> string" where
  "fn_name (Def name body) = name"
| "fn_name (Wrapper fn) = fn_name fn"

type_synonym 'c registry = "string \<rightharpoonup> 'c pyfunc"

record ('c, 't) world =
  AUG_METHODS :: "'c registry"
  heap :: "ref \<rightharpoonup> 't"
  next_ref :: ref

text \<open>
  The interpreter: what running a body on given arguments returns or raises, and
  what it leaves in \<open>AUG_METHODS\<close>. A body runs arbitrary code: it may read the whole
  state and may add, replace or remove registry entries, also when it raises. The
  object it returns is a new one, which the caller stores. The objects built before
  are held by the local lists of \<open>create_AugTransforms\<close> only, out of a body's
  reach, and stay as they are.
\<close>

type_synonym ('c, 't) interp =
  "'c \<Rightarrow> call_args \<Rightarrow> ('c, 't) world \<Rightarrow> (error + 't) \<times> 'c registry"

text \<open>
  The call \<open>fn(...)\<close>: a function made by \<open>def\<close> runs its body; the wrapper's body is
  \<open>return fn(*args, **kwargs)\<close>.
\<close>

primrec fn_call :: "('c, 't) interp \<Rightarrow> 'c pyfunc \<Rightarrow> call_args \<Rightarrow> ('c, 't) world \<Rightarrow> (error + 't) \<times> 'c registry" where
  "fn_call run (Def name body) args w = run body args w"
| "fn_call run (Wrapper fn) args w = fn_call run fn args w"

section \<open>The registry\<close>

definition duplicate_message :: "string \<Rightarrow> string" where
  "duplicate_message key =
     ''An entry is already registered under the name '' @ [CHR 0x27] @ key @ [CHR 0x27] @ ''.''"

text \<open>
  \<open>register_method(fn)\<close>: the key is \<open>fn.__name__\<close>; a key already present raises
  \<open>ValueError\<close> before anything is stored; otherwise \<open>fn\<close> itself is stored and a
  wrapper made with \<open>functools.wraps\<close> (same name, forwards every call) is returned.
\<close>

definition register_method :: "'c pyfunc \<Rightarrow> ('c, 't) world \<Rightarrow> (error + 'c pyfunc) \<times> ('c, 't) world" where
  "register_method fn w =
     (let key = fn_name fn in
      if key \<in> dom (AUG_METHODS w) then (Inl (ValueError (duplicate_message key)), w)
      else (Inr (Wrapper fn), w\<lparr>AUG_METHODS := (AUG_METHODS w)(key \<mapsto> fn)\<rparr>))"

section \<open>The configuration compiler\<close>

text \<open>
  The statement \<open>aug_list.append(AUG_METHODS[name](args))\<close>, which occurs three times
  in \<open>create_AugTransforms\<close>: the lookup raises \<open>KeyError\<close> for an absent name; the
  factory found is called in the current state and may raise; the registry is
  afterwards what the call left; the object returned is stored under a fresh
  reference, which is appended to the list.
\<close>

definition append_new :: "('c, 't) interp \<Rightarrow> string \<Rightarrow> call_args \<Rightarrow> ref list \<Rightarrow> ('c, 't) world \<Rightarrow> (error + ref list) \<times> ('c, 't) world" where
  "append_new run name args aug_list w =
     (case AUG_METHODS w name of
        None \<Rightarrow> (Inl (KeyError name), w)
      | Some fn \<Rightarrow>
          (case fn_call run fn args w of
             (Inl e, reg) \<Rightarrow> (Inl e, w\<lparr>AUG_METHODS := reg\<rparr>)
           | (Inr t, reg) \<Rightarrow>
               (Inr (aug_list @ [next_ref w]),
                w\<lparr>AUG_METHODS := reg, heap := (heap w)(next_ref w \<mapsto> t),
                  next_ref := Suc (next_ref w)\<rparr>)))"

definition addAugToSequence :: "('c, 't) interp \<Rightarrow> string \<Rightarrow> pyval \<Rightarrow> ref list \<Rightarrow> ('c, 't) world \<Rightarrow> (error + ref list) \<times> ('c, 't) world" where
  "addAugToSequence run aug_name params aug_list w =
     (if params = PStr ''no_params'' then append_new run aug_name NoArgs aug_list w
      else (case params of
              PDict kw \<Rightarrow> append_new run aug_name (KwArgs kw) aug_list w
            | _ \<Rightarrow> (Inl (AssertionError ''params must be a dict''), w)))"

text \<open>The inner loop \<open>for choice in augments[key]\<close>.\<close>

fun choice_loop :: "('c, 't) interp \<Rightarrow> pyval list \<Rightarrow> ref list \<Rightarrow> ('c, 't) world \<Rightarrow> (error + ref list) \<times> ('c, 't) world" where
  "choice_loop run [] choice_aug_list w = (Inr choice_aug_list, w)"
| "choice_loop run (choice # rest) choice_aug_list w =
     (case choice of
        PDict [(choice_key, choice_param)] \<Rightarrow>
          (case addAugToSequence run choice_key choice_param choice_aug_list w of
             (Inl e, w') \<Rightarrow> (Inl e, w')
           | (Inr l, w') \<Rightarrow> choice_loop run rest l w')
      | _ \<Rightarrow> (Inl (AssertionError ''each random_choice member must be a one-entry dict''), w))"

text \<open>The outer loop \<open>for key, params in augments.items()\<close>.\<close>

fun items_loop :: "('c, 't) interp \<Rightarrow> (string \<times> pyval) list \<Rightarrow> ref list \<Rightarrow> ('c, 't) world \<Rightarrow> (error + ref list) \<times> ('c, 't) world" where
  "items_loop run [] augs w = (Inr augs, w)"
| "items_loop run ((key, params) # rest) augs w =
     (if key = ''random_choice'' then
        (case params of
           PList choices \<Rightarrow>
             (case choice_loop run choices [] w of
                (Inl e, w') \<Rightarrow> (Inl e, w')
              | (Inr choice_aug_list, w') \<Rightarrow>
                  (case append_new run key (Positional choice_aug_list) augs w' of
                     (Inl e, w'') \<Rightarrow> (Inl e, w'')
                   | (Inr augs', w'') \<Rightarrow> items_loop run rest augs' w''))
         | _ \<Rightarrow> (Inl (AssertionError ''random_choice must be given a list''), w))
      else
        (case addAugToSequence run key params augs w of
           (Inl e, w') \<Rightarrow> (Inl e, w')
         | (Inr augs', w') \<Rightarrow> items_loop run rest augs' w'))"

text \<open>
  \<open>create_AugTransforms(augments)\<close>; the result \<open>T.Compose(augs)\<close> is the list of
  its steps. A dictionary is its list of items in insertion order.
\<close>

definition create_AugTransforms :: "('c, 't) interp \<Rightarrow> (string \<times> pyval) list \<Rightarrow> ('c, 't) world \<Rightarrow> (error + ref list) \<times> ('c, 't) world" where
  "create_AugTransforms run augments w = items_loop run augments [] w"

section \<open>The class-wise dispatcher\<close>

text \<open>
  Python list indexing \<open>xs[i]\<close>: a negative index counts from the end, and an index
  outside \<open>-len .. len-1\<close> raises \<open>IndexError\<close>.
\<close>

definition list_getitem :: "'a list \<Rightarrow> int \<Rightarrow> error + 'a" where
  "list_getitem xs i =
     (if 0 \<le> i then
        (if i < int (length xs) then Inr (xs ! nat i)
         else Inl (IndexError ''list index out of range''))
      else if - int (length xs) \<le> i then Inr (xs ! nat (int (length xs) + i))
      else Inl (IndexError ''list index out of range''))"

text \<open>
  Whitespace as \<open>str.split()\<close> and \<open>int()\<close> see it, for the code points below 256:
  tab, line feed, vertical tab, form feed, carriage return, the four separators
  0x1C to 0x1F, space, next line (0x85) and no-break space (0xA0).
\<close>

definition is_space :: "char \<Rightarrow> bool" where
  "is_space c = (c \<in> set [CHR 0x09, CHR 0x0A, CHR 0x0B, CHR 0x0C, CHR 0x0D,
                           CHR 0x1C, CHR 0x1D, CHR 0x1E, CHR 0x1F, CHR 0x20,
                           CHR 0x85, CHR 0xA0])"

text \<open>\<open>s.split()\<close>: the maximal runs of non-whitespace characters, in order.\<close>

fun split_from :: "string \<Rightarrow> string \<Rightarrow> string list" where
  "split_from [] cur = (if cur = [] then [] else [cur])"
| "split_from (c # cs) cur =
     (if is_space c then (if cur = [] then split_from cs [] else cur # split_from cs [])
      else split_from cs (cur @ [c]))"

definition str_split :: "string \<Rightarrow> string list" where
  "str_split s = split_from s []"

definition digit_of :: "char \<Rightarrow> int option" where
  "digit_of c =
     (if c = CHR ''0'' then Some 0 else if c = CHR ''1'' then Some 1
      else if c = CHR ''2'' then Some 2 else if c = CHR ''3'' then Some 3
      else if c = CHR ''4'' then Some 4 else if c = CHR ''5'' then Some 5
      else if c = CHR ''6'' then Some 6 else if c = CHR ''7'' then Some 7
      else if c = CHR ''8'' then Some 8 else if c = CHR ''9'' then Some 9
      else None)"

text \<open>
  The digits of a decimal literal as \<open>int()\<close> accepts them: at least one digit, and
  single underscores only between two digits. The flag says that the previous
  character was a digit.
\<close>

fun digits_value :: "string \<Rightarrow> bool \<Rightarrow> int \<Rightarrow> int option" where
  "digits_value [] prev acc = (if prev then Some acc else None)"
| "digits_value (c # cs) prev acc =
     (case digit_of c of
        Some d \<Rightarrow> digits_value cs True (10 * acc + d)
      | None \<Rightarrow> (if c = CHR ''_'' \<and> prev then digits_value cs False acc else None))"

definition str_strip :: "string \<Rightarrow> string" where
  "str_strip s = rev (dropWhile is_space (rev (dropWhile is_space s)))"

definition int_of_str :: "string \<Rightarrow> int option" where
  "int_of_str s =
     (case str_strip s of
        [] \<Rightarrow> None
      | c # cs \<Rightarrow>
          (if c = CHR ''-'' then map_option uminus (digits_value cs False 0)
           else if c = CHR ''+'' then digits_value cs False 0
           else digits_value (c # cs) False 0))"

text \<open>The builtin \<open>int(v)\<close> on a configuration value.\<close>

definition py_int :: "pyval \<Rightarrow> error + int" where
  "py_int v =
     (case v of
        PInt n \<Rightarrow> Inr n
      | PBool b \<Rightarrow> Inr (if b then 1 else 0)
      | PStr s \<Rightarrow> (case int_of_str s of
                     None \<Rightarrow> Inl (ValueError ''invalid literal for int() with base 10'')
                   | Some n \<Rightarrow> Inr n)
      | _ \<Rightarrow> Inl (TypeError ''int() argument must be a string or a number''))"

text \<open>
  What \<open>for i in t\<close> iterates over, after \<open>if isinstance(t, str): t = t.split()\<close>.
\<close>

definition index_items :: "pyval \<Rightarrow> error + pyval list" where
  "index_items t =
     (case t of
        PStr s \<Rightarrow> Inr (map PStr (str_split s))
      | PList xs \<Rightarrow> Inr xs
      | PDict kvs \<Rightarrow> Inr (map (\<lambda>kv. PStr (fst kv)) kvs)
      | _ \<Rightarrow> Inl (TypeError ''object is not iterable''))"

text \<open>The loop \<open>for i in t: transform.append(self.base_transforms.transforms[int(i)])\<close>.\<close>

fun index_loop :: "pyval list \<Rightarrow> ref list \<Rightarrow> ref list \<Rightarrow> error + ref list" where
  "index_loop [] transforms transform = Inr transform"
| "index_loop (i # rest) transforms transform =
     (case py_int i of
        Inl e \<Rightarrow> Inl e
      | Inr n \<Rightarrow>
          (case list_getitem transforms n of
             Inl e \<Rightarrow> Inl e
           | Inr r \<Rightarrow> index_loop rest transforms (transform @ [r])))"

text \<open>The loop \<open>for c, t in class_transforms_mapping.items()\<close>.\<close>

fun class_loop :: "(string \<times> pyval) list \<Rightarrow> ref list \<Rightarrow> (string \<rightharpoonup> ref list) \<Rightarrow> error + (string \<rightharpoonup> ref list)" where
  "class_loop [] transforms class_transforms = Inr class_transforms"
| "class_loop ((c, t) # rest) transforms class_transforms =
     (case index_items t of
        Inl e \<Rightarrow> Inl e
      | Inr items \<Rightarrow>
          (case index_loop items transforms [] of
             Inl e \<Rightarrow> Inl e
           | Inr transform \<Rightarrow> class_loop rest transforms (class_transforms(c \<mapsto> transform))))"

record augmenter =
  base_transforms :: "ref list"
  class_transforms :: "(string \<rightharpoonup> ref list) option"

text \<open>\<open>BaseClassWiseAugmenter.__init__(base_transforms, class_transforms_mapping)\<close>.\<close>

definition BaseClassWiseAugmenter_init ::
  "('c, 't) interp \<Rightarrow> (string \<times> pyval) list \<Rightarrow> (string \<times> pyval) list option \<Rightarrow> ('c, 't) world \<Rightarrow> (error + augmenter) \<times> ('c, 't) world" where
  "BaseClassWiseAugmenter_init run base_config class_transforms_mapping w =
     (case create_AugTransforms run base_config w of
        (Inl e, w') \<Rightarrow> (Inl e, w')
      | (Inr base, w') \<Rightarrow>
          (case class_transforms_mapping of
             None \<Rightarrow> (Inr \<lparr>base_transforms = base, class_transforms = None\<rparr>, w')
           | Some m \<Rightarrow>
               (case class_loop m base Map.empty of
                  Inl e \<Rightarrow> (Inl e, w')
                | Inr ct \<Rightarrow> (Inr \<lparr>base_transforms = base, class_transforms = Some ct\<rparr>, w'))))"

section \<open>Images\<close>

text \<open>
  An RGB image: its size and its rows of pixels. \<open>Image.new\<close> refuses a negative
  side; \<open>paste\<close> overwrites the part of the box that lies inside the target and
  leaves the size alone.
\<close>

type_synonym pixel = "nat \<times> nat \<times> nat"

record image =
  width :: nat
  height :: nat
  rows :: "pixel list list"

definition black :: pixel where
  "black = (0, 0, 0)"

definition getpixel :: "image \<Rightarrow> nat \<Rightarrow> nat \<Rightarrow> pixel" where
  "getpixel im x y = rows im ! y ! x"

definition Image_new :: "int \<times> int \<Rightarrow> pixel \<Rightarrow> error + image" where
  "Image_new sz color =
     (case sz of (w, h) \<Rightarrow>
        if w < 0 \<or> h < 0 then Inl (ValueError ''Width and height must be >= 0'')
        else Inr \<lparr>width = nat w, height = nat h,
                  rows = replicate (nat h) (replicate (nat w) color)\<rparr>)"

definition in_box :: "image \<Rightarrow> int \<times> int \<Rightarrow> nat \<Rightarrow> nat \<Rightarrow> bool" where
  "in_box src box x y =
     (case box of (ox, oy) \<Rightarrow>
        ox \<le> int x \<and> int x < ox + int (width src) \<and> oy \<le> int y \<and> int y < oy + int (height src))"

definition paste :: "image \<Rightarrow> image \<Rightarrow> int \<times> int \<Rightarrow> image" where
  "paste im src box =
     im\<lparr>rows :=
          map (\<lambda>y. map (\<lambda>x. if in_box src box x y
                             then getpixel src (nat (int x - fst box)) (nat (int y - snd box))
                             else getpixel im x y)
                        [0..<width im])
              [0..<height im]\<rparr>"

definition valid_image :: "image \<Rightarrow> bool" where
  "valid_image im =
     (length (rows im) = height im \<and> list_all (\<lambda>row. length row = width im) (rows im))"

section \<open>Random numbers\<close>

text \<open>
  The two generators the transforms draw from: Python's \<open>random\<close> module, whose
  \<open>random()\<close> yields the next number of a sequence of numbers in \<open>[0, 1)\<close>, and
  numpy's global generator, a sequence of raw numbers of which \<open>randint(low, high)\<close>
  reduces the next one into \<open>[low, high)\<close>, raising \<open>ValueError\<close> when the range
  is empty. Floating-point numbers are idealised as reals.
\<close>

record rng =
  py_stream :: "nat \<Rightarrow> real"
  py_pos :: nat
  np_stream :: "nat \<Rightarrow> nat"
  np_pos :: nat

definition random_random :: "rng \<Rightarrow> real \<times> rng" where
  "random_random g = (py_stream g (py_pos g), g\<lparr>py_pos := Suc (py_pos g)\<rparr>)"

definition random_uniform :: "real \<Rightarrow> real \<Rightarrow> rng \<Rightarrow> real \<times> rng" where
  "random_uniform a b g = (case random_random g of (u, g') \<Rightarrow> (a + (b - a) * u, g'))"

definition np_randint :: "int \<times> int \<Rightarrow> rng \<Rightarrow> (error + int) \<times> rng" where
  "np_randint bounds g =
     (case bounds of (low, high) \<Rightarrow>
        if high \<le> low then (Inl (ValueError ''low >= high''), g)
        else (Inr (low + int (np_stream g (np_pos g) mod nat (high - low))),
              g\<lparr>np_pos := Suc (np_pos g)\<rparr>))"

text \<open>\<open>int(x)\<close> on a float truncates towards zero.\<close>

definition int_of_float :: "real \<Rightarrow> int" where
  "int_of_float x = (if 0 \<le> x then \<lfloor>x\<rfloor> else \<lceil>x\<rceil>)"

section \<open>Patch cutout\<close>

text \<open>
  The fields of \<open>Cutout\<close>; \<open>length\<close> is \<open>length_px\<close> here, and a sampling range
  is the pair of its two bounds.
\<close>

record cutout =
  n_holes :: int
  length_px :: int
  ratio :: real
  h_range :: "(int \<times> int) option"
  w_range :: "(int \<times> int) option"
  prob :: real

text \<open>The loop \<open>for n in range(self.n_holes)\<close> of \<open>Cutout.__call__\<close>.\<close>

fun holes_loop :: "nat \<Rightarrow> int \<Rightarrow> int \<times> int \<Rightarrow> int \<times> int \<Rightarrow> image \<Rightarrow> image \<Rightarrow> rng \<Rightarrow> (error + image) \<times> rng" where
  "holes_loop 0 len h w mask_im img g = (Inr img, g)"
| "holes_loop (Suc k) len h w mask_im img g =
     (case np_randint h g of
        (Inl e, g') \<Rightarrow> (Inl e, g')
      | (Inr y, g') \<Rightarrow>
          (case np_randint w g' of
             (Inl e, g'') \<Rightarrow> (Inl e, g'')
           | (Inr x, g'') \<Rightarrow>
               (let x1 = max 0 (x - len div 2);
                    y1 = max 0 (y - len div 2)
                in holes_loop k len h w mask_im (paste img mask_im (x1, y1)) g'')))"

definition Cutout_call :: "cutout \<Rightarrow> image \<Rightarrow> rng \<Rightarrow> (error + image) \<times> rng" where
  "Cutout_call self image_in g =
     (case random_random g of (r, g1) \<Rightarrow>
        if r > prob self then (Inr image_in, g1)
        else
          (let img = image_in;
               h = (case h_range self of Some hr \<Rightarrow> hr | None \<Rightarrow> (0, int (height img)));
               w = (case w_range self of Some wr \<Rightarrow> wr | None \<Rightarrow> (0, int (width img)))
           in case random_uniform (1 - ratio self) (1 + ratio self) g1 of (u, g2) \<Rightarrow>
                (let mask_w = int_of_float (u * real_of_int (length_px self));
                     mask_h = length_px self
                 in case Image_new (mask_w, mask_h) black of
                      Inl e \<Rightarrow> (Inl e, g2)
                    | Inr mask_im \<Rightarrow>
                        holes_loop (nat (n_holes self)) (length_px self) h w mask_im img g2)))"

section \<open>Patch replacement with noise: construction\<close>

text \<open>
  \<open>glob.glob(f'{noisy_src}/*.jpg')\<close> on a POSIX file system whose directory
  \<open>noisy_src\<close> lists the given entry names (none for a missing directory): the
  entries that end in \<open>.jpg\<close> and do not start with a dot, each joined to the
  directory.
\<close>

definition glob_jpg :: "(string \<Rightarrow> string list) \<Rightarrow> string \<Rightarrow> string list" where
  "glob_jpg listdir noisy_src =
     map (\<lambda>name. noisy_src @ ''/'' @ name)
         (filter (\<lambda>name. suffix ''.jpg'' name \<and> \<not> prefix ''.'' name) (listdir noisy_src))"

text \<open>
  The extension \<open>os.path.splitext(p)[-1]\<close>: from the last dot of the last path
  component, unless that component has nothing but dots before it.
\<close>

definition splitext_ext :: "string \<Rightarrow> string" where
  "splitext_ext p =
     (let base = rev (takeWhile (\<lambda>c. c \<noteq> CHR ''/'') (rev p));
          ext = CHR ''.'' # rev (takeWhile (\<lambda>c. c \<noteq> CHR ''.'') (rev base));
          stem = take (length base - length ext) base
      in if CHR ''.'' \<in> set base \<and> (\<exists>c \<in> set stem. c \<noteq> CHR ''.'') then ext else [])"

record cutaddnoise =
  noise_n_holes :: int
  noise_length :: int
  noise_h_range :: "(int \<times> int) option"
  noise_w_range :: "(int \<times> int) option"
  noise_prob :: real
  noisy :: "string list"

definition CutAddNoise_init ::
  "(string \<Rightarrow> string list) \<Rightarrow> int \<Rightarrow> int \<Rightarrow> string \<Rightarrow> (int \<times> int) option \<Rightarrow> (int \<times> int) option \<Rightarrow> real
     \<Rightarrow> error + cutaddnoise" where
  "CutAddNoise_init listdir n len noisy_src hr wr p =
     (let found = glob_jpg listdir noisy_src in
      case found of
        [] \<Rightarrow> Inl (IndexError ''list index out of range'')
      | first # _ \<Rightarrow>
          if splitext_ext first = ''.jpg'' then
            Inr \<lparr>noise_n_holes = n, noise_length = len, noise_h_range = hr,
                 noise_w_range = wr, noise_prob = p, noisy = found\<rparr>
          else Inl (AssertionError ''only support .jpg''))"

section \<open>Square padding\<close>

datatype pad_arg = PadInt nat | PadSeq "nat list"

record padifneed =
  pad_value :: pixel
  mode :: string

definition PadIfNeed_init :: "pad_arg \<Rightarrow> string \<Rightarrow> error + padifneed" where
  "PadIfNeed_init pv m =
     (case (case pv of
              PadInt v \<Rightarrow> Inr (v, v, v)
            | PadSeq xs \<Rightarrow>
                (if length xs = 3 then Inr (xs ! 0, xs ! 1, xs ! 2)
                 else Inl (AssertionError ''pad_value must be an int or a 3-vector''))) of
        Inl e \<Rightarrow> Inl e
      | Inr c \<Rightarrow>
          if m \<in> set [''edge'', ''average''] then Inr \<lparr>pad_value = c, mode = m\<rparr>
          else Inl (AssertionError ''mode must be edge or average''))"

definition PadIfNeed_call :: "padifneed \<Rightarrow> image \<Rightarrow> error + image" where
  "PadIfNeed_call self image_in =
     (let w = int (width image_in);
          h = int (height image_in);
          max_size = max w h
      in case Image_new (max_size, max_size) (pad_value self) of
           Inl e \<Rightarrow> Inl e
         | Inr new_im \<Rightarrow>
             if mode self = ''average''
             then Inr (paste new_im image_in ((max_size - w) div 2, (max_size - h) div 2))
             else Inr (paste new_im image_in (max_size - w, max_size - h)))"

section \<open>The module as loaded\<close>

text \<open>
  Importing the module runs its \<open>@register_method\<close> decorators from top to bottom.
  The objects the factories build come from the image library; here an object is
  named by the factory that built it and the arguments it was built from.
\<close>

datatype transform = Transform string call_args

text \<open>
  The bodies of the 26 registered functions. All but one hand their arguments to a
  constructor and return its result. The body of \<open>normalize\<close> is
  \<open>T.Normalize(mean=mean if isinstance(mean, tuple) else eval(mean),
  std=std if isinstance(std, tuple) else eval(std))\<close>: it evaluates a parameter that is
  not a tuple as Python source, with the module's globals, among them \<open>AUG_METHODS\<close>.
\<close>

datatype body =
    Construct string
  | Normalize

text \<open>
  The builtin \<open>eval\<close> on a string, in the module's globals: whether it raises
  (\<open>Some e\<close>) or returns, and the registry it leaves. It is a parameter of the model.
  The value it returns is stored in the \<open>Normalize\<close> object unexamined, so it does not
  enter.
\<close>

type_synonym evaluator = "string \<Rightarrow> (body, transform) world \<Rightarrow> error option \<times> body registry"

definition eval_message :: string where
  "eval_message = ''eval() arg 1 must be a string, bytes or code object''"

text \<open>
  \<open>x if isinstance(x, tuple) else eval(x)\<close> for a parameter \<open>x\<close>: an absent parameter
  has its default, which is a tuple; a configuration value is never a tuple, so a
  string is evaluated and \<open>eval\<close> raises \<open>TypeError\<close> on any other value.
\<close>

definition tuple_or_eval :: "evaluator \<Rightarrow> pyval option \<Rightarrow> (body, transform) world \<Rightarrow> error option \<times> body registry" where
  "tuple_or_eval ev x w =
     (case x of
        None \<Rightarrow> (None, AUG_METHODS w)
      | Some (PStr s) \<Rightarrow> ev s w
      | Some v \<Rightarrow> (Some (TypeError eval_message), AUG_METHODS w))"

definition unexpected_message :: "string \<Rightarrow> string" where
  "unexpected_message k =
     ''normalize() got an unexpected keyword argument '' @ [CHR 0x27] @ k @ [CHR 0x27]"

text \<open>
  \<open>normalize(...)\<close>: a keyword other than \<open>mean\<close> and \<open>std\<close> is a \<open>TypeError\<close>; then
  \<open>mean\<close> is evaluated, then \<open>std\<close> in the state that left. Called with one positional
  argument, a list, it binds the list to \<open>mean\<close> and \<open>eval\<close> refuses it.
\<close>

definition normalize :: "evaluator \<Rightarrow> call_args \<Rightarrow> (body, transform) world \<Rightarrow> (error + transform) \<times> body registry" where
  "normalize ev args w =
     (case args of
        NoArgs \<Rightarrow> (Inr (Transform ''normalize'' args), AUG_METHODS w)
      | Positional l \<Rightarrow> (Inl (TypeError eval_message), AUG_METHODS w)
      | KwArgs kw \<Rightarrow>
          (case filter (\<lambda>k. k \<noteq> ''mean'' \<and> k \<noteq> ''std'') (map fst kw) of
             k # ks \<Rightarrow> (Inl (TypeError (unexpected_message k)), AUG_METHODS w)
           | [] \<Rightarrow>
               (case tuple_or_eval ev (map_of kw ''mean'') w of
                  (Some e, reg) \<Rightarrow> (Inl e, reg)
                | (None, reg) \<Rightarrow>
                    (case tuple_or_eval ev (map_of kw ''std'') (w\<lparr>AUG_METHODS := reg\<rparr>) of
                       (Some e, reg') \<Rightarrow> (Inl e, reg')
                     | (None, reg') \<Rightarrow> (Inr (Transform ''normalize'' args), reg')))))"

text \<open>The interpreter of the module's bodies.\<close>

definition module_run :: "evaluator \<Rightarrow> (body, transform) interp" where
  "module_run ev b args w =
     (case b of
        Construct name \<Rightarrow> (Inr (Transform name args), AUG_METHODS w)
      | Normalize \<Rightarrow> normalize ev args w)"

definition factory :: "string \<Rightarrow> body pyfunc" where
  "factory name = Def name (if name = ''normalize'' then Normalize else Construct name)"

definition module_names :: "string list" where
  "module_names =
     [''random_cutout'', ''random_cutaddnoise'', ''color_jitter'', ''random_autocontrast'',
      ''random_adjustsharpness'', ''random_invert'', ''random_equalize'', ''random_augmix'',
      ''random_crop'', ''random_color_jitter'', ''random_horizonflip'', ''random_verticalflip'',
      ''random_rotate'', ''to_tensor'', ''to_tensor_without_div'', ''normalize'',
      ''random_augment'', ''center_crop'', ''resize'', ''centercrop_resize'', ''random_affine'',
      ''random_gaussianblur'', ''random_grayscale'', ''random_crop_and_resize'', ''pad2square'',
      ''random_choice'']"

fun register_all :: "'c pyfunc list \<Rightarrow> ('c, 't) world \<Rightarrow> (error + unit) \<times> ('c, 't) world" where
  "register_all [] w = (Inr (), w)"
| "register_all (fn # fns) w =
     (case register_method fn w of
        (Inl e, w') \<Rightarrow> (Inl e, w')
      | (Inr wrapper, w') \<Rightarrow> register_all fns w')"

definition empty_world :: "('c, 't) world" where
  "empty_world = \<lparr>AUG_METHODS = Map.empty, heap = Map.empty, next_ref = 0\<rparr>"

definition module_world :: "(body, transform) world" where
  "module_world = snd (register_all (map factory module_names) empty_world)"

section \<open>Auxiliary notions for the proofs\<close>

text \<open>The test \<open>isinstance(choice, dict) and len(choice) == 1\<close> with the entry it admits.\<close>

definition one_entry :: "pyval \<Rightarrow> (string \<times> pyval) option" where
  "one_entry choice = (case choice of PDict [(k, v)] \<Rightarrow> Some (k, v) | _ \<Rightarrow> None)"

text \<open>The arguments a parameter value stands for: none for the sentinel, keywords for a dict.\<close>

definition call_args_of :: "pyval \<Rightarrow> call_args option" where
  "call_args_of params =
     (if params = PStr ''no_params'' then Some NoArgs
      else (case params of PDict kw \<Rightarrow> Some (KwArgs kw) | _ \<Rightarrow> None))"

text \<open>
  An entry resolves when its parameters are the sentinel or a dict, its name is
  registered, and the factory, called in any state that has this registry, accepts
  the arguments and leaves the registry as it is.
\<close>

definition resolves :: "('c, 't) interp \<Rightarrow> ('c, 't) world \<Rightarrow> string \<Rightarrow> pyval \<Rightarrow> bool" where
  "resolves run w name params =
     (\<exists>args fn. call_args_of params = Some args \<and> AUG_METHODS w name = Some fn
         \<and> (\<forall>w1. AUG_METHODS w1 = AUG_METHODS w
                \<longrightarrow> (\<exists>t. fn_call run fn args w1 = (Inr t, AUG_METHODS w))))"

text \<open>
  The state in which the turn of entry \<open>i\<close> of a configuration comes, and the state
  in which the turn of member \<open>j\<close> of a \<open>random_choice\<close> list comes: the ones that
  compiling the entries, or the members, before it has left.
\<close>

definition state_before :: "('c, 't) interp \<Rightarrow> (string \<times> pyval) list \<Rightarrow> ('c, 't) world \<Rightarrow> nat \<Rightarrow> ('c, 't) world" where
  "state_before run augments w i = snd (create_AugTransforms run (take i augments) w)"

definition state_before_member :: "('c, 't) interp \<Rightarrow> pyval list \<Rightarrow> ('c, 't) world \<Rightarrow> nat \<Rightarrow> ('c, 't) world" where
  "state_before_member run choices w j = snd (choice_loop run (take j choices) [] w)"

text \<open>
  In the state \<open>w'\<close>, reference \<open>r\<close> holds the object that the factory registered as
  \<open>name\<close> in the state \<open>wc\<close> built when it was called there with \<open>args\<close>, and \<open>r\<close> was
  the first free reference of \<open>wc\<close>.
\<close>

definition built_by :: "('c, 't) interp \<Rightarrow> ('c, 't) world \<Rightarrow> ('c, 't) world \<Rightarrow> string \<Rightarrow> call_args \<Rightarrow> ref \<Rightarrow> bool" where
  "built_by run wc w' name args r =
     (r = next_ref wc \<and> r < next_ref w' \<and>
      (\<exists>fn t reg. AUG_METHODS wc name = Some fn \<and> fn_call run fn args wc = (Inr t, reg)
          \<and> heap w' r = Some t))"

text \<open>Reference \<open>r\<close> holds the transform of one member of a \<open>random_choice\<close> list.\<close>

definition member_built :: "('c, 't) interp \<Rightarrow> ('c, 't) world \<Rightarrow> ('c, 't) world \<Rightarrow> pyval \<Rightarrow> ref \<Rightarrow> bool" where
  "member_built run wc w' choice r =
     (\<exists>k v args. choice = PDict [(k, v)] \<and> call_args_of v = Some args
        \<and> built_by run wc w' k args r)"

text \<open>
  Reference \<open>r\<close> holds the step compiled from one top-level entry whose turn came in
  the state \<open>wi\<close>: for an ordinary entry the object its factory built from its
  parameters; for \<open>random_choice\<close> the one object the \<open>random_choice\<close> factory built,
  after the members, from the list of the members' transforms, one per member and in
  the members' order.
\<close>

definition entry_compiled :: "('c, 't) interp \<Rightarrow> ('c, 't) world \<Rightarrow> ('c, 't) world \<Rightarrow> string \<times> pyval \<Rightarrow> ref \<Rightarrow> bool" where
  "entry_compiled run wi w' entry r =
     (case entry of (key, params) \<Rightarrow>
        if key = ''random_choice'' then
          (\<exists>choices cands. params = PList choices \<and> length cands = length choices
             \<and> built_by run (state_before_member run choices wi (length choices)) w' key
                   (Positional cands) r
             \<and> (\<forall>j<length choices.
                   member_built run (state_before_member run choices wi j) w'
                     (choices ! j) (cands ! j)))
        else (\<exists>args. call_args_of params = Some args \<and> built_by run wi w' key args r))"

text \<open>The store only grows: no reference is given out twice and no existing object changes.\<close>

definition grows :: "('c, 't) world \<Rightarrow> ('c, 't) world \<Rightarrow> bool" where
  "grows w w' =
     (next_ref w \<le> next_ref w' \<and> (\<forall>r<next_ref w. heap w' r = heap w r))"





text \<open>
  An evaluator for the examples. It knows two expressions and does on them what
  \<open>eval\<close> does: \<open>dict.clear()\<close> empties the dictionary and returns \<open>None\<close>, and
  \<open>None or t\<close> is \<open>t\<close>. It refuses every other string; no theorem depends on that.
\<close>

definition example_eval :: evaluator where
  "example_eval s w =
     (if s = ''AUG_METHODS.clear() or (0.485, 0.456, 0.406)'' then (None, Map.empty)
      else if s = ''(0.485, 0.456, 0.406)'' then (None, AUG_METHODS w)
      else (Some (SyntaxError ''invalid syntax''), AUG_METHODS w))"

definition example_run :: "(body, transform) interp" where
  "example_run = module_run example_eval"


text \<open>Two configurations used to exercise the compiler.\<close>

definition example_plain :: "(string \<times> pyval) list" where
  "example_plain =
     [(''resize'', PDict [(''size'', PInt 224)]), (''to_tensor'', PStr ''no_params'')]"

definition example_choice :: "(string \<times> pyval) list" where
  "example_choice =
     [(''resize'', PDict [(''size'', PInt 224)]),
      (''random_choice'',
         PList [PDict [(''random_rotate'', PDict [(''degrees'', PInt 10)])],
                PDict [(''random_horizonflip'', PStr ''no_params'')]]),
      (''to_tensor'', PStr ''no_params'')]"

text \<open>
  The integers a class's index specification denotes, when every item converts:
  \<open>int(i)\<close> for each item of the list, or of the split string.
\<close>

fun ints_of :: "pyval list \<Rightarrow> int list option" where
  "ints_of [] = Some []"
| "ints_of (v # vs) =
     (case py_int v of
        Inl e \<Rightarrow> None
      | Inr n \<Rightarrow> (case ints_of vs of None \<Rightarrow> None | Some ns \<Rightarrow> Some (n # ns)))"

definition class_indices :: "pyval \<Rightarrow> int list option" where
  "class_indices t = (case index_items t of Inl e \<Rightarrow> None | Inr items \<Rightarrow> ints_of items)"

text \<open>The indices a Python list of length \<open>n\<close> accepts, and the element one selects.\<close>

definition in_range :: "nat \<Rightarrow> int \<Rightarrow> bool" where
  "in_range n i = (- int n \<le> i \<and> i < int n)"

definition step_at :: "'a list \<Rightarrow> int \<Rightarrow> 'a" where
  "step_at xs i = xs ! nat (if i < 0 then int (length xs) + i else i)"

text \<open>
  The ownership the specification asks of a dispatcher: no class sub-pipeline has a
  step object in common with the default pipeline.
\<close>

definition owns_steps :: "augmenter \<Rightarrow> bool" where
  "owns_steps d =
     (case class_transforms d of
        None \<Rightarrow> True
      | Some ct \<Rightarrow> (\<forall>c sub. ct c = Some sub \<longrightarrow> set sub \<inter> set (base_transforms d) = {}))"

text \<open>
  The validation the specification asks of a dispatcher: construction fails as soon
  as some class lists an index outside \<open>0 .. len - 1\<close>.
\<close>

definition rejects_outside :: "('c, 't) interp \<Rightarrow> (string \<times> pyval) list \<Rightarrow> (string \<times> pyval) list \<Rightarrow> ('c, 't) world \<Rightarrow> bool" where
  "rejects_outside run base_config m w =
     (\<forall>p w' c t idxs i.
        create_AugTransforms run base_config w = (Inr p, w') \<and> (c, t) \<in> set m
        \<and> class_indices t = Some idxs \<and> i \<in> set idxs \<and> (i < 0 \<or> int (length p) \<le> i)
        \<longrightarrow> (\<exists>e. fst (BaseClassWiseAugmenter_init run base_config (Some m) w) = Inl e))"

text \<open>A class's index specification the dispatcher accepts for a default pipeline.\<close>

definition sub_ok :: "ref list \<Rightarrow> pyval \<Rightarrow> bool" where
  "sub_ok base t = (\<exists>idxs. class_indices t = Some idxs \<and> list_all (in_range (length base)) idxs)"

text \<open>A default pipeline of five steps and class-wise mappings for it.\<close>

definition example_five :: "(string \<times> pyval) list" where
  "example_five =
     [(''resize'', PDict [(''size'', PInt 224)]),
      (''random_horizonflip'', PStr ''no_params''),
      (''random_rotate'', PDict [(''degrees'', PInt 10)]),
      (''to_tensor'', PStr ''no_params''),
      (''normalize'', PStr ''no_params'')]"

definition example_classes :: "(string \<times> pyval) list" where
  "example_classes = [(''classA'', PList [PInt 0, PInt 2]), (''classB'', PStr ''4 1 1'')]"

definition example_negative :: "(string \<times> pyval) list" where
  "example_negative = [(''classA'', PList [PInt (- 1)])]"

definition example_augmenter :: augmenter where
  "example_augmenter =
     \<lparr>base_transforms = [0, 1, 2, 3, 4],
      class_transforms = Some [''classA'' \<mapsto> [0, 2], ''classB'' \<mapsto> [4, 1, 1]]\<rparr>"

definition example_too_large :: "(string \<times> pyval) list" where
  "example_too_large = [(''classA'', PList [PInt 5])]"

text \<open>
  Where the specification places the input inside the padded square: centred in
  \<open>average\<close> mode, flush to the far edge otherwise.
\<close>

definition pad_offset :: "string \<Rightarrow> image \<Rightarrow> nat \<times> nat" where
  "pad_offset m im =
     (let side = max (width im) (height im) in
      if m = ''average'' then ((side - width im) div 2, (side - height im) div 2)
      else (side - width im, side - height im))"

text \<open>A four by two image with eight different pixels.\<close>

definition example_image :: image where
  "example_image =
     \<lparr>width = 4, height = 2,
      rows = [[(1, 1, 1), (2, 2, 2), (3, 3, 3), (4, 4, 4)],
              [(5, 5, 5), (6, 6, 6), (7, 7, 7), (8, 8, 8)]]\<rparr>"

text \<open>A file system with one directory, which holds no \<open>.jpg\<close> file.\<close>

definition example_listdir :: "string \<Rightarrow> string list" where
  "example_listdir d = (if d = ''noise'' then [''a.png'', ''notes.txt'', ''jpg''] else [])"

text \<open>
  The ranges the centres of the holes are sampled from: the configured ranges, or the
  whole image.
\<close>

definition sample_h :: "cutout \<Rightarrow> image \<Rightarrow> int \<times> int" where
  "sample_h self img = (case h_range self of Some hr \<Rightarrow> hr | None \<Rightarrow> (0, int (height img)))"

definition sample_w :: "cutout \<Rightarrow> image \<Rightarrow> int \<times> int" where
  "sample_w self img = (case w_range self of Some wr \<Rightarrow> wr | None \<Rightarrow> (0, int (width img)))"

text \<open>
  The factor \<open>U\<close> the call draws with \<open>random.uniform(1 - ratio, 1 + ratio)\<close>, right
  after the gate, and the width \<open>int(U * length)\<close> of the mask.
\<close>

definition width_factor :: "cutout \<Rightarrow> rng \<Rightarrow> real" where
  "width_factor self g =
     (1 - ratio self) + ((1 + ratio self) - (1 - ratio self)) * py_stream g (Suc (py_pos g))"

definition mask_width :: "cutout \<Rightarrow> rng \<Rightarrow> int" where
  "mask_width self g = int_of_float (width_factor self g * real_of_int (length_px self))"

text \<open>
  The centre \<open>(x, y)\<close> of hole \<open>i\<close>: the numbers \<open>2 i\<close> and \<open>2 i + 1\<close> of numpy's
  generator after the call began give \<open>y\<close> and \<open>x\<close>.
\<close>

definition hole_center :: "int \<times> int \<Rightarrow> int \<times> int \<Rightarrow> rng \<Rightarrow> nat \<Rightarrow> int \<times> int" where
  "hole_center h w g i =
     (fst w + int (np_stream g (np_pos g + 2 * i + 1) mod nat (snd w - fst w)),
      fst h + int (np_stream g (np_pos g + 2 * i) mod nat (snd h - fst h)))"

text \<open>The top-left corner of a hole: half the side left of and above the centre, clamped at zero.\<close>

definition hole_corner :: "int \<Rightarrow> int \<times> int \<Rightarrow> int \<times> int" where
  "hole_corner len c = (max 0 (fst c - len div 2), max 0 (snd c - len div 2))"

definition hole_corners :: "cutout \<Rightarrow> image \<Rightarrow> rng \<Rightarrow> (int \<times> int) list" where
  "hole_corners self img g =
     map (\<lambda>i. hole_corner (length_px self) (hole_center (sample_h self img) (sample_w self img) g i))
         [0..<nat (n_holes self)]"

text \<open>A pixel lies under one of the holes of the given width and height.\<close>

definition covered :: "int \<Rightarrow> int \<Rightarrow> (int \<times> int) list \<Rightarrow> nat \<Rightarrow> nat \<Rightarrow> bool" where
  "covered mw mh corners x y =
     list_ex (\<lambda>b. fst b \<le> int x \<and> int x < fst b + mw \<and> snd b \<le> int y \<and> int y < snd b + mh)
             corners"

text \<open>The mask the call pastes: black, as wide as \<open>mask_width\<close> and as high as the side.\<close>

definition black_mask :: "cutout \<Rightarrow> rng \<Rightarrow> image" where
  "black_mask self g =
     \<lparr>width = nat (mask_width self g), height = nat (length_px self),
      rows = replicate (nat (length_px self)) (replicate (nat (mask_width self g)) black)\<rparr>"

text \<open>
  The reading of the specification in which every hole draws a width factor of its
  own: the loop of \<open>Cutout.__call__\<close> with the draw and the mask moved inside.
\<close>

fun claimed_holes_loop :: "nat \<Rightarrow> cutout \<Rightarrow> int \<times> int \<Rightarrow> int \<times> int \<Rightarrow> image \<Rightarrow> rng \<Rightarrow> (error + image) \<times> rng" where
  "claimed_holes_loop 0 self h w img g = (Inr img, g)"
| "claimed_holes_loop (Suc k) self h w img g =
     (case random_uniform (1 - ratio self) (1 + ratio self) g of (u, g1) \<Rightarrow>
        (case Image_new (int_of_float (u * real_of_int (length_px self)), length_px self) black of
           Inl e \<Rightarrow> (Inl e, g1)
         | Inr mask_im \<Rightarrow>
             (case np_randint h g1 of
                (Inl e, g2) \<Rightarrow> (Inl e, g2)
              | (Inr y, g2) \<Rightarrow>
                  (case np_randint w g2 of
                     (Inl e, g3) \<Rightarrow> (Inl e, g3)
                   | (Inr x, g3) \<Rightarrow>
                       claimed_holes_loop k self h w
                         (paste img mask_im (max 0 (x - length_px self div 2),
                                             max 0 (y - length_px self div 2))) g3))))"

definition Cutout_claimed :: "cutout \<Rightarrow> image \<Rightarrow> rng \<Rightarrow> (error + image) \<times> rng" where
  "Cutout_claimed self image_in g =
     (case random_random g of (r, g1) \<Rightarrow>
        if r > prob self then (Inr image_in, g1)
        else claimed_holes_loop (nat (n_holes self)) self
               (sample_h self image_in) (sample_w self image_in) image_in g1)"

text \<open>
  A cutout of two holes of side two that always applies, a random state whose first
  two numbers are zero, and small images to run it on.
\<close>

definition example_cutout :: cutout where
  "example_cutout =
     \<lparr>n_holes = 2, length_px = 2, ratio = 1 / 2, h_range = None, w_range = None, prob = 1\<rparr>"

definition example_rng :: rng where
  "example_rng =
     \<lparr>py_stream = (\<lambda>i. if i = 2 then 9 / 10 else 0), py_pos = 0,
      np_stream = (\<lambda>i. 0), np_pos = 0\<rparr>"

definition example_white :: image where
  "example_white =
     \<lparr>width = 4, height = 2,
      rows = [[(255, 255, 255), (255, 255, 255), (255, 255, 255), (255, 255, 255)],
              [(255, 255, 255), (255, 255, 255), (255, 255, 255), (255, 255, 255)]]\<rparr>"

definition example_black :: image where
  "example_black =
     \<lparr>width = 4, height = 2,
      rows = [[(0, 0, 0), (0, 0, 0), (0, 0, 0), (0, 0, 0)],
              [(0, 0, 0), (0, 0, 0), (0, 0, 0), (0, 0, 0)]]\<rparr>"

definition example_one_column :: image where
  "example_one_column =
     \<lparr>width = 4, height = 2,
      rows = [[(0, 0, 0), (255, 255, 255), (255, 255, 255), (255, 255, 255)],
              [(0, 0, 0), (255, 255, 255), (255, 255, 255), (255, 255, 255)]]\<rparr>"

definition example_two_columns :: image where
  "example_two_columns =
     \<lparr>width = 4, height = 2,
      rows = [[(0, 0, 0), (0, 0, 0), (255, 255, 255), (255, 255, 255)],
              [(0, 0, 0), (0, 0, 0), (255, 255, 255), (255, 255, 255)]]\<rparr>"

definition example_mask_narrow :: image where
  "example_mask_narrow = \<lparr>width = 1, height = 2, rows = [[(0, 0, 0)], [(0, 0, 0)]]\<rparr>"

definition example_mask_wide :: image where
  "example_mask_wide =
     \<lparr>width = 2, height = 2, rows = [[(0, 0, 0), (0, 0, 0)], [(0, 0, 0), (0, 0, 0)]]\<rparr>"

definition example_never :: cutout where
  "example_never = example_cutout\<lparr>prob := 0\<rparr>"

definition example_rng_half :: rng where
  "example_rng_half = \<lparr>py_stream = (\<lambda>i. 1 / 2), py_pos = 0, np_stream = (\<lambda>i. 0), np_pos = 0\<rparr>"

section \<open>Registration\<close>

lemma fn_name_factory [simp]: "fn_name (factory name) = name"
  by (simp add: factory_def)

lemma module_world_eq:
  "module_world = \<lparr>AUG_METHODS = map_of (map (\<lambda>n. (n, factory n)) (rev module_names)), heap = Map.empty, next_ref = 0\<rparr>"
  by (simp add: module_world_def module_names_def register_method_def empty_world_def Let_def)

lemma module_world_resize: "AUG_METHODS module_world ''resize'' = Some (factory ''resize'')"
  by (simp add: module_world_eq module_names_def)

lemma fn_call_construct:
  "name \<noteq> ''normalize'' \<Longrightarrow>
     fn_call (module_run ev) (factory name) args w = (Inr (Transform name args), AUG_METHODS w)"
  by (simp add: factory_def module_run_def)

text \<open>
  Claim C8. Registering a function under a name that is already present raises the
  duplicate-name error (a \<open>ValueError\<close> naming the key) and changes nothing, so the
  name still maps to the function registered first; registering under a new name
  stores the function and returns a wrapper with the same name that forwards every
  call to it.
\<close>

theorem register_method_duplicate:
  "(AUG_METHODS (w :: ('c, 't) world) (fn_name fn2) = Some fn1 \<longrightarrow>
      register_method fn2 w = (Inl (ValueError (duplicate_message (fn_name fn2))), w)
      \<and> AUG_METHODS (snd (register_method fn2 w)) (fn_name fn2) = Some fn1)
   \<and> (AUG_METHODS w (fn_name fn2) = None \<longrightarrow>
      (\<exists>wrapper. register_method fn2 w = (Inr wrapper, w\<lparr>AUG_METHODS := (AUG_METHODS w)(fn_name fn2 \<mapsto> fn2)\<rparr>)
         \<and> fn_name wrapper = fn_name fn2
         \<and> (\<forall>run args w1. fn_call run wrapper args (w1 :: ('c, 't) world) = fn_call run fn2 args w1)))"
  by (auto simp: register_method_def Let_def)

theorem register_method_duplicate_witness:
  "AUG_METHODS module_world ''resize'' = Some (factory ''resize'')
   \<and> register_method (Def ''resize'' (Construct ''other'')) module_world
       = (Inl (ValueError (duplicate_message ''resize'')), module_world)
   \<and> AUG_METHODS (empty_world :: (body, transform) world) ''resize'' = None
   \<and> (\<exists>wrapper. register_method (factory ''resize'') (empty_world :: (body, transform) world)
         = (Inr wrapper, empty_world\<lparr>AUG_METHODS := [''resize'' \<mapsto> factory ''resize'']\<rparr>)
        \<and> fn_call example_run wrapper NoArgs module_world
            = (Inr (Transform ''resize'' NoArgs), AUG_METHODS module_world))"
  using register_method_duplicate [of module_world "Def ''resize'' (Construct ''other'')" "factory ''resize''"]
        register_method_duplicate [of "empty_world :: (body, transform) world" "factory ''resize''"]
        module_world_resize
  by (auto simp: empty_world_def example_run_def fn_call_construct)

section \<open>The compiled pipeline\<close>

lemma choice_loop_Cons:
  "choice_loop run (choice # rest) l w =
     (case one_entry choice of
        None \<Rightarrow> (Inl (AssertionError ''each random_choice member must be a one-entry dict''), w)
      | Some (k, v) \<Rightarrow>
          (case addAugToSequence run k v l w of
             (Inl e, w') \<Rightarrow> (Inl e, w')
           | (Inr l', w') \<Rightarrow> choice_loop run rest l' w'))"
  by (simp add: one_entry_def split: pyval.split list.split prod.split)

lemma one_entry_Some: "one_entry c = Some (k, v) \<longleftrightarrow> c = PDict [(k, v)]"
  by (simp add: one_entry_def split: pyval.split list.split prod.split)

declare choice_loop.simps(2) [simp del]

declare items_loop.simps(2) [simp del]

lemma grows_refl: "grows w w"
  by (simp add: grows_def)

lemma grows_trans: "grows w1 w2 \<Longrightarrow> grows w2 w3 \<Longrightarrow> grows w1 w3"
  by (auto simp: grows_def)

lemma built_by_mono:
  "built_by run wc w name args r \<Longrightarrow> grows w w' \<Longrightarrow> built_by run wc w' name args r"
  by (auto simp: built_by_def grows_def)

lemma member_built_mono:
  "member_built run wc w c r \<Longrightarrow> grows w w' \<Longrightarrow> member_built run wc w' c r"
  unfolding member_built_def by (blast intro: built_by_mono)

lemma entry_compiled_mono:
  assumes "entry_compiled run wi w entry r" and "grows w w'"
  shows "entry_compiled run wi w' entry r"
proof -
  obtain key params where entry: "entry = (key, params)" by (cases entry)
  show ?thesis
  proof (cases "key = ''random_choice''")
    case False
    with assms show ?thesis
      by (auto simp: entry_compiled_def entry intro: built_by_mono)
  next
    case True
    with assms(1) obtain choices cands
      where c: "params = PList choices" "length cands = length choices"
        "built_by run (state_before_member run choices wi (length choices)) w key
           (Positional cands) r"
        "\<forall>j<length choices. member_built run (state_before_member run choices wi j) w
           (choices ! j) (cands ! j)"
      by (auto simp: entry_compiled_def entry)
    have "built_by run (state_before_member run choices wi (length choices)) w' key
           (Positional cands) r" using c(3) assms(2) by (rule built_by_mono)
    moreover have "\<forall>j<length choices.
        member_built run (state_before_member run choices wi j) w' (choices ! j) (cands ! j)"
      using c(4) member_built_mono [OF _ assms(2)] by blast
    ultimately show ?thesis using c(1,2) True
      by (auto simp: entry_compiled_def entry)
  qed
qed

lemma append_new_InrD:
  assumes "append_new run name args l w = (Inr l', w')"
  shows "l' = l @ [next_ref w]" and "next_ref w' = Suc (next_ref w)" and "grows w w'"
    and "built_by run w w' name args (next_ref w)"
  using assms
  by (auto simp: append_new_def grows_def built_by_def
      split: option.splits prod.splits sum.splits)

lemma addAugToSequence_InrD:
  assumes "addAugToSequence run k v l w = (Inr l', w')"
  shows "\<exists>args. call_args_of v = Some args \<and> append_new run k args l w = (Inr l', w')"
  using assms unfolding addAugToSequence_def call_args_of_def
  by (cases v) (auto split: if_splits)

lemma addAugToSequence_facts:
  assumes "addAugToSequence run k v l w = (Inr l', w')"
  shows "l' = l @ [next_ref w]" and "next_ref w' = Suc (next_ref w)" and "grows w w'"
    and "\<exists>args. call_args_of v = Some args \<and> built_by run w w' k args (next_ref w)"
proof -
  from addAugToSequence_InrD [OF assms] obtain args
    where a: "call_args_of v = Some args" and b: "append_new run k args l w = (Inr l', w')"
    by blast
  show "l' = l @ [next_ref w]" by (rule append_new_InrD(1) [OF b])
  show "next_ref w' = Suc (next_ref w)" by (rule append_new_InrD(2) [OF b])
  show "grows w w'" by (rule append_new_InrD(3) [OF b])
  show "\<exists>args. call_args_of v = Some args \<and> built_by run w w' k args (next_ref w)"
    using a append_new_InrD(4) [OF b] by blast
qed

lemma choice_loop_InrD:
  "choice_loop run cs l w = (Inr l', w') \<Longrightarrow>
     \<exists>new. l' = l @ new \<and> length new = length cs \<and> grows w w'
           \<and> set new \<subseteq> {next_ref w..<next_ref w'}
           \<and> (\<forall>j<length cs. member_built run (snd (choice_loop run (take j cs) l w)) w'
                  (cs ! j) (new ! j))"
proof (induction cs arbitrary: l w)
  case Nil
  then show ?case by (simp add: grows_refl)
next
  case (Cons choice rest)
  from Cons.prems obtain k v where kv: "one_entry choice = Some (k, v)"
    by (cases "one_entry choice") (auto simp: choice_loop_Cons)
  from Cons.prems kv obtain l1 w1
    where a: "addAugToSequence run k v l w = (Inr l1, w1)"
      and b: "choice_loop run rest l1 w1 = (Inr l', w')"
    by (auto simp: choice_loop_Cons split: prod.splits sum.splits)
  note f = addAugToSequence_facts [OF a]
  from Cons.IH [OF b] obtain new
    where n: "l' = l1 @ new" "length new = length rest" "grows w1 w'"
      "set new \<subseteq> {next_ref w1..<next_ref w'}"
      "\<forall>j<length rest. member_built run (snd (choice_loop run (take j rest) l1 w1)) w'
          (rest ! j) (new ! j)"
    by blast
  from f(4) obtain args where args: "call_args_of v = Some args"
      "built_by run w w1 k args (next_ref w)" by blast
  have c: "choice = PDict [(k, v)]" using kv by (simp add: one_entry_Some)
  have m0: "member_built run w w' choice (next_ref w)"
    unfolding member_built_def using c args built_by_mono [OF args(2) n(3)] by blast
  have le: "next_ref w1 \<le> next_ref w'" using n(3) by (simp add: grows_def)
  have step: "\<And>j. choice_loop run (take (Suc j) (choice # rest)) l w
      = choice_loop run (take j rest) l1 w1"
    using kv a by (simp add: choice_loop_Cons)
  let ?new = "next_ref w # new"
  have "l' = l @ ?new" using n(1) f(1) by simp
  moreover have "length ?new = length (choice # rest)" using n(2) by simp
  moreover have "grows w w'" using f(3) n(3) by (rule grows_trans)
  moreover have "set ?new \<subseteq> {next_ref w..<next_ref w'}"
    using n(4) f(2) le by auto
  moreover have "\<forall>j<length (choice # rest).
      member_built run (snd (choice_loop run (take j (choice # rest)) l w)) w'
        ((choice # rest) ! j) (?new ! j)"
  proof (intro allI impI)
    fix j assume j: "j < length (choice # rest)"
    show "member_built run (snd (choice_loop run (take j (choice # rest)) l w)) w'
        ((choice # rest) ! j) (?new ! j)"
    proof (cases j)
      case 0
      with m0 show ?thesis by simp
    next
      case (Suc i)
      with j have "i < length rest" by simp
      with n(5) have "member_built run (snd (choice_loop run (take i rest) l1 w1)) w'
          (rest ! i) (new ! i)" by blast
      then show ?thesis unfolding Suc step by simp
    qed
  qed
  ultimately show ?case by blast
qed

lemma items_loop_ConsE:
  assumes "items_loop run ((key, params) # rest) l w = (Inr l', w')"
  obtains (plain) l1 w1 where "key \<noteq> ''random_choice''"
      "addAugToSequence run key params l w = (Inr l1, w1)" "items_loop run rest l1 w1 = (Inr l', w')"
  | (choice) choices cl w1 l2 w2 where "key = ''random_choice''" "params = PList choices"
      "choice_loop run choices [] w = (Inr cl, w1)"
      "append_new run key (Positional cl) l w1 = (Inr l2, w2)" "items_loop run rest l2 w2 = (Inr l', w')"
proof (cases "key = ''random_choice''")
  case False
  with assms plain show ?thesis
    by (auto simp: items_loop.simps(2) split: prod.splits sum.splits)
next
  case True
  with assms choice show ?thesis
    by (cases params) (auto simp: items_loop.simps(2) split: prod.splits sum.splits)
qed

lemma items_loop_InrD:
  "items_loop run cfg l w = (Inr l', w') \<Longrightarrow>
     \<exists>new. l' = l @ new \<and> length new = length cfg \<and> grows w w' \<and> distinct new
           \<and> set new \<subseteq> {next_ref w..<next_ref w'}
           \<and> (\<forall>i<length cfg. entry_compiled run (snd (items_loop run (take i cfg) l w)) w'
                  (cfg ! i) (new ! i))"
proof (induction cfg arbitrary: l w)
  case Nil
  then show ?case by (simp add: grows_refl)
next
  case (Cons entry rest)
  obtain key params where entry: "entry = (key, params)" by (cases entry)
  from Cons.prems have lp: "items_loop run ((key, params) # rest) l w = (Inr l', w')"
    by (simp add: entry)
  have "\<exists>r0 l1 w1. l1 = l @ [r0] \<and> next_ref w \<le> r0 \<and> r0 < next_ref w1 \<and> grows w w1
          \<and> entry_compiled run w w1 entry r0 \<and> items_loop run rest l1 w1 = (Inr l', w')
          \<and> (\<forall>i. items_loop run (take (Suc i) (entry # rest)) l w
                   = items_loop run (take i rest) l1 w1)"
  using lp proof (cases rule: items_loop_ConsE)
    case (plain l1 w1)
    note f = addAugToSequence_facts [OF plain(2)]
    have "entry_compiled run w w1 entry (next_ref w)"
      using f(4) plain(1) by (simp add: entry_compiled_def entry)
    moreover have "\<forall>i. items_loop run (take (Suc i) (entry # rest)) l w
                   = items_loop run (take i rest) l1 w1"
      using plain(1,2) by (simp add: entry items_loop.simps(2))
    ultimately show ?thesis using f(1,2,3) plain(3)
      by (intro exI [of _ "next_ref w"] exI [of _ l1] exI [of _ w1]) simp
  next
    case (choice choices cl w1 l2 w2)
    from choice_loop_InrD [OF choice(3)] obtain new
      where n: "cl = [] @ new" "length new = length choices" "grows w w1"
        "set new \<subseteq> {next_ref w..<next_ref w1}"
        "\<forall>j<length choices. member_built run (snd (choice_loop run (take j choices) [] w)) w1
            (choices ! j) (new ! j)"
      by blast
    note f = append_new_InrD [OF choice(4)]
    have mem: "\<forall>j<length choices. member_built run (state_before_member run choices w j) w2
        (choices ! j) (cl ! j)"
      using n(1) n(5) member_built_mono [OF _ f(3)] by (simp add: state_before_member_def)
    have "state_before_member run choices w (length choices) = w1"
      using choice(3) by (simp add: state_before_member_def)
    with f(4) have "built_by run (state_before_member run choices w (length choices)) w2 key
        (Positional cl) (next_ref w1)" by simp
    with mem have "entry_compiled run w w2 entry (next_ref w1)"
      using choice(1,2) n(1,2) by (auto simp: entry_compiled_def entry)
    moreover have "grows w w2" using n(3) f(3) by (rule grows_trans)
    moreover have "next_ref w \<le> next_ref w1" using n(3) by (simp add: grows_def)
    moreover have "\<forall>i. items_loop run (take (Suc i) (entry # rest)) l w
                   = items_loop run (take i rest) l2 w2"
      using choice(1,2,3,4) by (simp add: entry items_loop.simps(2))
    ultimately show ?thesis using f(1,2) choice(5)
      by (intro exI [of _ "next_ref w1"] exI [of _ l2] exI [of _ w2]) simp
  qed
  then obtain r0 l1 w1
    where s: "l1 = l @ [r0]" "next_ref w \<le> r0" "r0 < next_ref w1" "grows w w1"
      "entry_compiled run w w1 entry r0" "items_loop run rest l1 w1 = (Inr l', w')"
      "\<forall>i. items_loop run (take (Suc i) (entry # rest)) l w
                   = items_loop run (take i rest) l1 w1"
    by blast
  from Cons.IH [OF s(6)] obtain new
    where n: "l' = l1 @ new" "length new = length rest" "grows w1 w'" "distinct new"
      "set new \<subseteq> {next_ref w1..<next_ref w'}"
      "\<forall>i<length rest. entry_compiled run (snd (items_loop run (take i rest) l1 w1)) w'
          (rest ! i) (new ! i)"
    by blast
  have le: "next_ref w1 \<le> next_ref w'" using n(3) by (simp add: grows_def)
  have e0: "entry_compiled run w w' entry r0" using s(5) n(3) by (rule entry_compiled_mono)
  let ?new = "r0 # new"
  have "l' = l @ ?new" using n(1) s(1) by simp
  moreover have "length ?new = length (entry # rest)" using n(2) by simp
  moreover have "grows w w'" using s(4) n(3) by (rule grows_trans)
  moreover have "distinct ?new" using n(4,5) s(3) by auto
  moreover have "set ?new \<subseteq> {next_ref w..<next_ref w'}"
    using n(5) s(2,3) le by auto
  moreover have "\<forall>i<length (entry # rest).
      entry_compiled run (snd (items_loop run (take i (entry # rest)) l w)) w'
        ((entry # rest) ! i) (?new ! i)"
  proof (intro allI impI)
    fix i assume i: "i < length (entry # rest)"
    show "entry_compiled run (snd (items_loop run (take i (entry # rest)) l w)) w'
        ((entry # rest) ! i) (?new ! i)"
    proof (cases i)
      case 0
      with e0 show ?thesis by simp
    next
      case (Suc k)
      with i have "k < length rest" by simp
      with n(6) have "entry_compiled run (snd (items_loop run (take k rest) l1 w1)) w'
          (rest ! k) (new ! k)" by blast
      then show ?thesis unfolding Suc s(7) [rule_format] by simp
    qed
  qed
  ultimately show ?case by blast
qed

lemma addAugToSequence_args:
  assumes "call_args_of v = Some args"
  shows "addAugToSequence run k v l w = append_new run k args l w"
proof (cases "v = PStr ''no_params''")
  case True
  with assms show ?thesis by (simp add: addAugToSequence_def call_args_of_def)
next
  case False
  with assms show ?thesis
    by (cases v) (simp_all add: addAugToSequence_def call_args_of_def)
qed

lemma addAugToSequence_resolves:
  assumes "resolves run w k v" and "AUG_METHODS w1 = AUG_METHODS w"
  shows "\<exists>l' w'. addAugToSequence run k v l w1 = (Inr l', w') \<and> AUG_METHODS w' = AUG_METHODS w"
proof -
  from assms(1) obtain args fn
    where a: "call_args_of v = Some args" "AUG_METHODS w k = Some fn"
      "\<forall>w1. AUG_METHODS w1 = AUG_METHODS w
         \<longrightarrow> (\<exists>t. fn_call run fn args w1 = (Inr t, AUG_METHODS w))"
    unfolding resolves_def by blast
  from a(3) assms(2) obtain t where t: "fn_call run fn args w1 = (Inr t, AUG_METHODS w)"
    by blast
  show ?thesis
    unfolding addAugToSequence_args [OF a(1)] using a(2) assms(2) t
    by (simp add: append_new_def)
qed

lemma items_loop_total:
  "\<forall>entry\<in>set cfg. fst entry \<noteq> ''random_choice'' \<and> resolves run w (fst entry) (snd entry) \<Longrightarrow>
     AUG_METHODS w1 = AUG_METHODS w \<Longrightarrow>
     \<exists>l' w'. items_loop run cfg l w1 = (Inr l', w')"
proof (induction cfg arbitrary: l w1)
  case Nil
  then show ?case by simp
next
  case (Cons entry rest)
  obtain key params where entry: "entry = (key, params)" by (cases entry)
  from Cons.prems have k: "key \<noteq> ''random_choice''" and r: "resolves run w key params"
    by (simp_all add: entry)
  from addAugToSequence_resolves [OF r Cons.prems(2)] obtain l1 w2
    where a: "addAugToSequence run key params l w1 = (Inr l1, w2)"
      and m: "AUG_METHODS w2 = AUG_METHODS w" by blast
  have "\<forall>e\<in>set rest. fst e \<noteq> ''random_choice'' \<and> resolves run w (fst e) (snd e)"
    using Cons.prems(1) by simp
  from Cons.IH [OF this m] obtain l' w' where "items_loop run rest l1 w2 = (Inr l', w')" by blast
  then show ?case using k a by (simp add: entry items_loop.simps(2))
qed

lemma module_world_lookup:
  "AUG_METHODS module_world ''resize'' = Some (factory ''resize'')"
  "AUG_METHODS module_world ''to_tensor'' = Some (factory ''to_tensor'')"
  "AUG_METHODS module_world ''random_rotate'' = Some (factory ''random_rotate'')"
  "AUG_METHODS module_world ''random_horizonflip'' = Some (factory ''random_horizonflip'')"
  "AUG_METHODS module_world ''random_choice'' = Some (factory ''random_choice'')"
  "next_ref module_world = 0"
  by (simp_all add: module_world_eq module_names_def)

lemma example_choice_run:
  "fst (create_AugTransforms example_run example_choice module_world) = Inr [0, 3, 4]"
  by (simp add: create_AugTransforms_def example_choice_def items_loop.simps(2)
      choice_loop.simps(2) addAugToSequence_def append_new_def module_world_lookup
      example_run_def fn_call_construct)

text \<open>
  Claim C1. A configuration all of whose entries are ordinary and resolve (the name
  is registered, and its factory accepts the parameters and leaves the registry as
  it is) is compiled into a pipeline; and whenever \<open>create_AugTransforms\<close> returns a pipeline, it has
  exactly one step per top-level entry, the steps are distinct objects, and the step
  at position \<open>i\<close> is the one compiled from entry \<open>i\<close> when its turn came: for an
  ordinary entry the object its factory built from its parameters, for
  \<open>random_choice\<close> with \<open>k\<close> members the single choice object built from the \<open>k\<close>
  members' transforms.
\<close>

theorem create_AugTransforms_steps:
  "((\<forall>entry\<in>set augments. fst entry \<noteq> ''random_choice'' \<and> resolves run w (fst entry) (snd entry))
      \<longrightarrow> (\<exists>p w'. create_AugTransforms run augments w = (Inr p, w')))
   \<and> (create_AugTransforms run augments w = (Inr p, w')
      \<longrightarrow> length p = length augments \<and> distinct p
          \<and> (\<forall>i<length augments.
                entry_compiled run (state_before run augments w i) w' (augments ! i) (p ! i)))"
proof (intro conjI impI)
  assume "\<forall>entry\<in>set augments. fst entry \<noteq> ''random_choice'' \<and> resolves run w (fst entry) (snd entry)"
  then show "\<exists>p w'. create_AugTransforms run augments w = (Inr p, w')"
    unfolding create_AugTransforms_def by (rule items_loop_total) simp
next
  assume "create_AugTransforms run augments w = (Inr p, w')"
  then have "items_loop run augments [] w = (Inr p, w')" by (simp add: create_AugTransforms_def)
  from items_loop_InrD [OF this] obtain new
    where n: "p = [] @ new" "length new = length augments" "distinct new"
      "\<forall>i<length augments. entry_compiled run (snd (items_loop run (take i augments) [] w)) w'
          (augments ! i) (new ! i)"
    by blast
  then show "length p = length augments" "distinct p"
    "\<forall>i<length augments.
       entry_compiled run (state_before run augments w i) w' (augments ! i) (p ! i)"
    by (simp_all add: state_before_def create_AugTransforms_def)
qed

theorem create_AugTransforms_steps_witness:
  "list_all (\<lambda>entry. fst entry \<noteq> ''random_choice''
        \<and> resolves example_run module_world (fst entry) (snd entry)) example_plain
   \<and> (\<exists>p w'. create_AugTransforms example_run example_plain module_world = (Inr p, w'))
   \<and> fst (create_AugTransforms example_run example_choice module_world) = Inr [0, 3, 4]
   \<and> length [0, 3, 4 :: nat] = length example_choice
   \<and> entry_compiled example_run (state_before example_run example_choice module_world 1)
        (snd (create_AugTransforms example_run example_choice module_world))
        (example_choice ! 1) ([0, 3, 4] ! 1)"
proof -
  have h: "\<forall>entry\<in>set example_plain. fst entry \<noteq> ''random_choice''
        \<and> resolves example_run module_world (fst entry) (snd entry)"
    by (simp add: example_plain_def resolves_def call_args_of_def module_world_lookup
        example_run_def fn_call_construct)
  have r: "create_AugTransforms example_run example_choice module_world
             = (Inr [0, 3, 4], snd (create_AugTransforms example_run example_choice module_world))"
    using example_choice_run by (simp add: prod_eq_iff)
  have len: "1 < length example_choice" by (simp add: example_choice_def)
  from create_AugTransforms_steps [of example_plain example_run module_world] h
  have a: "\<exists>p w'. create_AugTransforms example_run example_plain module_world = (Inr p, w')" by blast
  from create_AugTransforms_steps [of example_choice example_run module_world "[0, 3, 4]"
        "snd (create_AugTransforms example_run example_choice module_world)"] r
  have b: "length [0, 3, 4 :: nat] = length example_choice"
    and c: "\<forall>i<length example_choice.
          entry_compiled example_run (state_before example_run example_choice module_world i)
            (snd (create_AugTransforms example_run example_choice module_world))
            (example_choice ! i) ([0, 3, 4] ! i)" by blast+
  from c len have "entry_compiled example_run (state_before example_run example_choice module_world 1)
        (snd (create_AugTransforms example_run example_choice module_world))
        (example_choice ! 1) ([0, 3, 4] ! 1)" by blast
  moreover from h have "list_all (\<lambda>entry. fst entry \<noteq> ''random_choice''
        \<and> resolves example_run module_world (fst entry) (snd entry)) example_plain"
    by (simp add: list_all_iff)
  ultimately show ?thesis using a b example_choice_run by blast
qed

section \<open>The class-wise dispatcher: sub-pipelines, indices and sharing\<close>

lemma list_getitem_Inr:
  "list_getitem xs i = Inr x \<longleftrightarrow> in_range (length xs) i \<and> x = step_at xs i"
  by (auto simp: list_getitem_def in_range_def step_at_def)

lemma list_getitem_Inl:
  "list_getitem xs i = Inl e \<Longrightarrow> e = IndexError ''list index out of range''"
  by (auto simp: list_getitem_def split: if_splits)

lemma step_at_mem: "in_range (length xs) i \<Longrightarrow> step_at xs i \<in> set xs"
  by (auto simp: in_range_def step_at_def)


lemma index_loop_Inr_iff:
  "index_loop items base acc = Inr tr \<longleftrightarrow>
     (\<exists>idxs. ints_of items = Some idxs \<and> list_all (in_range (length base)) idxs
             \<and> tr = acc @ map (step_at base) idxs)"
proof (induction items arbitrary: acc)
  case Nil
  show ?case by auto
next
  case (Cons v vs)
  show ?case
  proof (cases "py_int v")
    case (Inl e)
    then show ?thesis by simp
  next
    case (Inr n)
    show ?thesis
    proof (cases "list_getitem base n")
      case (Inl e)
      then have "\<not> in_range (length base) n"
        using list_getitem_Inr [of base n] by auto
      with Inr Inl show ?thesis by (auto split: option.splits)
    next
      case r: (Inr x)
      then have x: "in_range (length base) n" "x = step_at base n"
        using list_getitem_Inr [of base n x] by auto
      show ?thesis using Inr r x Cons.IH [of "acc @ [x]"]
        by (auto split: option.splits)
    qed
  qed
qed

lemma index_loop_Inl:
  "index_loop items base acc = Inl e \<Longrightarrow> ints_of items = Some idxs \<Longrightarrow>
     e = IndexError ''list index out of range''"
proof (induction items arbitrary: acc idxs)
  case Nil
  then show ?case by simp
next
  case (Cons v vs)
  from Cons.prems(2) obtain n ns where n: "py_int v = Inr n" "ints_of vs = Some ns"
    by (auto split: sum.splits option.splits)
  show ?case
  proof (cases "list_getitem base n")
    case (Inl e')
    with Cons.prems(1) n show ?thesis by (auto dest: list_getitem_Inl)
  next
    case (Inr x)
    with Cons.prems(1) n have "index_loop vs base (acc @ [x]) = Inl e" by simp
    from Cons.IH [OF this n(2)] show ?thesis .
  qed
qed

lemma class_step_Inr_iff:
  "(case index_items t of Inl e \<Rightarrow> Inl e | Inr items \<Rightarrow> index_loop items base []) = Inr tr \<longleftrightarrow>
     (\<exists>idxs. class_indices t = Some idxs \<and> list_all (in_range (length base)) idxs
             \<and> tr = map (step_at base) idxs)"
  by (cases "index_items t") (simp_all add: class_indices_def index_loop_Inr_iff)

lemma class_loop_Cons:
  "class_loop ((c, t) # rest) base ct0 =
     (case (case index_items t of Inl e \<Rightarrow> Inl e | Inr items \<Rightarrow> index_loop items base []) of
        Inl e \<Rightarrow> Inl e
      | Inr tr \<Rightarrow> class_loop rest base (ct0(c \<mapsto> tr)))"
  by (simp split: sum.splits)

declare class_loop.simps(2) [simp del]




lemma class_loop_subset:
  "class_loop m base ct0 = Inr ct \<Longrightarrow> ct c = Some sub \<Longrightarrow>
     ct0 c = Some sub \<or> set sub \<subseteq> set base"
proof (induction m arbitrary: ct0)
  case Nil
  then show ?case by simp
next
  case (Cons entry rest)
  obtain c' t' where entry: "entry = (c', t')" by (cases entry)
  from Cons.prems(1) obtain tr
    where step: "(case index_items t' of Inl e \<Rightarrow> Inl e | Inr items \<Rightarrow> index_loop items base []) = Inr tr"
      and tr: "class_loop rest base (ct0(c' \<mapsto> tr)) = Inr ct"
    by (auto simp: entry class_loop_Cons split: sum.splits)
  from step obtain idxs where i: "list_all (in_range (length base)) idxs" "tr = map (step_at base) idxs"
    by (auto simp: class_step_Inr_iff)
  have sub_tr: "set tr \<subseteq> set base"
    using i by (auto simp: list_all_iff intro: step_at_mem)
  from Cons.IH [OF tr Cons.prems(2)] show ?case
    using sub_tr by (auto split: if_splits)
qed


lemma class_loop_fails:
  "(c, t) \<in> set m \<Longrightarrow> \<not> sub_ok base t \<Longrightarrow> \<exists>e. class_loop m base ct0 = Inl e"
proof (induction m arbitrary: ct0)
  case Nil
  then show ?case by simp
next
  case (Cons entry rest)
  obtain c' t' where entry: "entry = (c', t')" by (cases entry)
  show ?case
  proof (cases "(case index_items t' of Inl e \<Rightarrow> Inl e | Inr items \<Rightarrow> index_loop items base [])")
    case (Inl e)
    then show ?thesis by (simp add: entry class_loop_Cons)
  next
    case (Inr tr)
    then have "sub_ok base t'" unfolding sub_ok_def class_step_Inr_iff by blast
    with Cons.prems have "(c, t) \<in> set rest" by (auto simp: entry)
    from Cons.IH [OF this Cons.prems(2), of "ct0(c' \<mapsto> tr)"] obtain e
      where "class_loop rest base (ct0(c' \<mapsto> tr)) = Inl e" by blast
    then have "class_loop (entry # rest) base ct0 = Inl e"
      by (simp add: entry class_loop_Cons Inr)
    then show ?thesis by blast
  qed
qed

lemma class_loop_Inl:
  "class_loop m base ct0 = Inl e \<Longrightarrow> list_all (\<lambda>entry. class_indices (snd entry) \<noteq> None) m \<Longrightarrow>
     e = IndexError ''list index out of range''"
proof (induction m arbitrary: ct0)
  case Nil
  then show ?case by simp
next
  case (Cons entry rest)
  obtain c' t' where entry: "entry = (c', t')" by (cases entry)
  from Cons.prems(2) obtain items idxs
    where it: "index_items t' = Inr items" "ints_of items = Some idxs"
      and r: "list_all (\<lambda>entry. class_indices (snd entry) \<noteq> None) rest"
    by (auto simp: entry class_indices_def split: sum.splits)
  show ?case
  proof (cases "index_loop items base []")
    case (Inl e')
    with Cons.prems(1) it have "e' = e" by (simp add: entry class_loop_Cons)
    with index_loop_Inl [OF Inl it(2)] show ?thesis by simp
  next
    case (Inr tr)
    with Cons.prems(1) it have "class_loop rest base (ct0(c' \<mapsto> tr)) = Inl e"
      by (simp add: entry class_loop_Cons)
    from Cons.IH [OF this r] show ?thesis .
  qed
qed


lemma init_Some:
  "BaseClassWiseAugmenter_init run cfg (Some m) w = (Inr d, w') \<Longrightarrow>
     create_AugTransforms run cfg w = (Inr (base_transforms d), w')
     \<and> (\<exists>ct. class_transforms d = Some ct \<and> class_loop m (base_transforms d) Map.empty = Inr ct)"
  by (auto simp: BaseClassWiseAugmenter_init_def split: prod.splits sum.splits)

lemma init_Some_run:
  "create_AugTransforms run cfg w = (Inr base, w') \<Longrightarrow>
     BaseClassWiseAugmenter_init run cfg (Some m) w =
       (case class_loop m base Map.empty of
          Inl e \<Rightarrow> (Inl e, w')
        | Inr ct \<Rightarrow> (Inr \<lparr>base_transforms = base, class_transforms = Some ct\<rparr>, w'))"
  by (simp add: BaseClassWiseAugmenter_init_def)


text \<open>
  Claim C5, amended. When the default pipeline compiles and some class lists an index
  \<open>i\<close> with \<open>i \<ge> len\<close> or \<open>i < -len\<close>, construction fails; the error is the
  \<open>IndexError\<close> of list indexing when every class's index specification converts
  to integers. Indices from \<open>-len\<close> to \<open>-1\<close> are accepted and count from the end.
\<close>

theorem dispatcher_index_out_of_range:
  "create_AugTransforms run cfg w = (Inr p, w') \<and> (c, t) \<in> set m \<and> class_indices t = Some idxs
     \<and> i \<in> set idxs \<and> (i < - int (length p) \<or> int (length p) \<le> i)
   \<longrightarrow> (\<exists>e. BaseClassWiseAugmenter_init run cfg (Some m) w = (Inl e, w')
          \<and> (list_all (\<lambda>entry. class_indices (snd entry) \<noteq> None) m
               \<longrightarrow> e = IndexError ''list index out of range''))"
proof
  assume a: "create_AugTransforms run cfg w = (Inr p, w') \<and> (c, t) \<in> set m
     \<and> class_indices t = Some idxs
     \<and> i \<in> set idxs \<and> (i < - int (length p) \<or> int (length p) \<le> i)"
  then have "\<not> in_range (length p) i" by (auto simp: in_range_def)
  with a have "\<not> sub_ok p t" by (auto simp: sub_ok_def list_all_iff)
  with a class_loop_fails [of c t m p Map.empty] obtain e
    where e: "class_loop m p Map.empty = Inl e" by blast
  with a have "BaseClassWiseAugmenter_init run cfg (Some m) w = (Inl e, w')"
    by (simp add: init_Some_run)
  moreover have "list_all (\<lambda>entry. class_indices (snd entry) \<noteq> None) m
               \<longrightarrow> e = IndexError ''list index out of range''"
    using class_loop_Inl [OF e] by blast
  ultimately show "\<exists>e. BaseClassWiseAugmenter_init run cfg (Some m) w = (Inl e, w')
          \<and> (list_all (\<lambda>entry. class_indices (snd entry) \<noteq> None) m
               \<longrightarrow> e = IndexError ''list index out of range'')" by blast
qed

lemma create_refs:
  "create_AugTransforms run cfg w = (Inr p, w') \<Longrightarrow>
     set p \<subseteq> {next_ref w..<next_ref w'}"
  unfolding create_AugTransforms_def by (drule items_loop_InrD) auto

text \<open>
  Claim C3, amended. Two pipelines compiled by two calls of the compiler have no step
  object in common; a dispatcher's class sub-pipeline consists only of step objects of
  its default pipeline, which it shares by reference.
\<close>

theorem pipelines_share_by_reference_only:
  "(create_AugTransforms run cfg1 w = (Inr p, w1) \<and> create_AugTransforms run cfg2 w1 = (Inr q, w2)
      \<longrightarrow> set p \<inter> set q = {})
   \<and> (BaseClassWiseAugmenter_init run cfg (Some m) w = (Inr d, w')
        \<and> class_transforms d = Some ct \<and> ct c = Some sub
      \<longrightarrow> set sub \<subseteq> set (base_transforms d))"
proof (intro conjI impI)
  assume a: "create_AugTransforms run cfg1 w = (Inr p, w1) \<and> create_AugTransforms run cfg2 w1 = (Inr q, w2)"
  then have "set p \<subseteq> {next_ref w..<next_ref w1}" "set q \<subseteq> {next_ref w1..<next_ref w2}"
    by (auto dest: create_refs)
  then show "set p \<inter> set q = {}" by fastforce
next
  assume a: "BaseClassWiseAugmenter_init run cfg (Some m) w = (Inr d, w')
        \<and> class_transforms d = Some ct \<and> ct c = Some sub"
  from init_Some [of run cfg m w d w'] a
  have cl: "class_loop m (base_transforms d) Map.empty = Inr ct" by auto
  from class_loop_subset [OF cl, of c sub] a show "set sub \<subseteq> set (base_transforms d)"
    by simp
qed

lemma module_world_normalize:
  "AUG_METHODS module_world ''normalize'' = Some (factory ''normalize'')"
  by (simp add: module_world_eq module_names_def)

lemma example_five_fst:
  "fst (create_AugTransforms example_run example_five module_world) = Inr [0, 1, 2, 3, 4]"
  by (simp add: create_AugTransforms_def example_five_def items_loop.simps(2)
      addAugToSequence_def append_new_def module_world_lookup module_world_normalize
      example_run_def module_run_def normalize_def factory_def)

lemma example_five_run:
  "create_AugTransforms example_run example_five module_world
     = (Inr [0, 1, 2, 3, 4], snd (create_AugTransforms example_run example_five module_world))"
  using example_five_fst by (simp add: prod_eq_iff)



lemma class_indices_negative: "class_indices (PList [PInt (- 1)]) = Some [- 1]"
  by (simp add: class_indices_def index_items_def py_int_def)

lemma example_classes_loop:
  "class_loop example_classes [0, 1, 2, 3, 4] Map.empty
     = Inr [''classA'' \<mapsto> [0, 2], ''classB'' \<mapsto> [4, 1, 1]]"
  by (simp add: example_classes_def class_loop.simps(2) index_items_def py_int_def
      list_getitem_def str_split_def is_space_def int_of_str_def str_strip_def digit_of_def)

lemma example_negative_loop:
  "class_loop example_negative [0, 1, 2, 3, 4] Map.empty = Inr [''classA'' \<mapsto> [4]]"
  by (simp add: example_negative_def class_loop.simps(2) index_items_def py_int_def
      list_getitem_def)

lemma example_init:
  "BaseClassWiseAugmenter_init example_run example_five (Some example_classes) module_world
     = (Inr example_augmenter, snd (create_AugTransforms example_run example_five module_world))"
  unfolding init_Some_run [OF example_five_run] example_classes_loop example_augmenter_def
  by simp

lemma example_init_negative:
  "BaseClassWiseAugmenter_init example_run example_five (Some example_negative) module_world
     = (Inr \<lparr>base_transforms = [0, 1, 2, 3, 4], class_transforms = Some [''classA'' \<mapsto> [4]]\<rparr>,
        snd (create_AugTransforms example_run example_five module_world))"
  unfolding init_Some_run [OF example_five_run] example_negative_loop by simp





text \<open>
  Claim C5 as stated fails: the index \<open>-1\<close> is outside \<open>0 .. len - 1\<close>, and the
  dispatcher is constructed all the same, with the last step as the class's
  sub-pipeline.
\<close>

theorem dispatcher_rejects_outside_counterexample:
  "\<not> rejects_outside example_run example_five example_negative module_world"
proof
  assume r: "rejects_outside example_run example_five example_negative module_world"
  have "\<exists>e. fst (BaseClassWiseAugmenter_init example_run example_five (Some example_negative) module_world) = Inl e"
    using r [unfolded rejects_outside_def, rule_format,
        of "[0, 1, 2, 3, 4]" "snd (create_AugTransforms example_run example_five module_world)"
           "''classA''" "PList [PInt (- 1)]" "[- 1]" "- 1"]
      example_five_run class_indices_negative
    by (simp add: example_negative_def)
  then show False by (simp add: example_init_negative)
qed

lemma example_too_large_indices:
  "list_all (\<lambda>entry. class_indices (snd entry) \<noteq> None) example_too_large"
  "class_indices (PList [PInt 5]) = Some [5]"
  by (simp_all add: example_too_large_def class_indices_def index_items_def py_int_def)

theorem dispatcher_index_out_of_range_witness:
  "create_AugTransforms example_run example_five module_world
     = (Inr [0, 1, 2, 3, 4], snd (create_AugTransforms example_run example_five module_world))
   \<and> (''classA'', PList [PInt 5]) \<in> set example_too_large
   \<and> class_indices (PList [PInt 5]) = Some [5]
   \<and> int (length [0, 1, 2, 3, 4 :: nat]) \<le> 5
   \<and> BaseClassWiseAugmenter_init example_run example_five (Some example_too_large) module_world
       = (Inl (IndexError ''list index out of range''),
          snd (create_AugTransforms example_run example_five module_world))"
proof -
  let ?W = "snd (create_AugTransforms example_run example_five module_world)"
  have m: "(''classA'', PList [PInt 5]) \<in> set example_too_large"
    by (simp add: example_too_large_def)
  have l: "int (length [0, 1, 2, 3, 4 :: nat]) \<le> 5" by simp
  have s: "(5 :: int) \<in> set [5]" by simp
  from dispatcher_index_out_of_range [of example_run example_five module_world "[0, 1, 2, 3, 4]" ?W
      "''classA''" "PList [PInt 5]" example_too_large "[5]" 5]
    example_five_run m example_too_large_indices l s
  have "BaseClassWiseAugmenter_init example_run example_five (Some example_too_large) module_world
       = (Inl (IndexError ''list index out of range''), ?W)" by blast
  with example_five_run m example_too_large_indices(2) l show ?thesis by blast
qed

text \<open>
  Claim C3 as stated fails: the dispatcher built from five steps and the mapping
  \<open>classA: [0, 2]\<close>, \<open>classB: "4 1 1"\<close> has class sub-pipelines whose steps are the
  very objects of the default pipeline.
\<close>

theorem dispatcher_shares_steps_counterexample:
  "fst (BaseClassWiseAugmenter_init example_run example_five (Some example_classes) module_world)
     = Inr example_augmenter
   \<and> \<not> owns_steps example_augmenter"
proof
  show "fst (BaseClassWiseAugmenter_init example_run example_five (Some example_classes) module_world)
     = Inr example_augmenter" by (simp add: example_init)
  show "\<not> owns_steps example_augmenter"
  proof
    assume "owns_steps example_augmenter"
    then have "set [0, 2] \<inter> set [0, 1, 2, 3, 4 :: nat] = {}"
      unfolding owns_steps_def example_augmenter_def
      by (simp del: set_simps) (drule spec [of _ "''classA''"], simp del: set_simps)
    then show False by simp
  qed
qed

lemma example_plain_twice:
  "fst (create_AugTransforms example_run example_plain module_world) = Inr [0, 1]"
  "fst (create_AugTransforms example_run example_plain (snd (create_AugTransforms example_run example_plain module_world)))
     = Inr [2, 3]"
  by (simp_all add: create_AugTransforms_def example_plain_def items_loop.simps(2)
      addAugToSequence_def append_new_def module_world_lookup
      example_run_def module_run_def factory_def)

theorem pipelines_share_by_reference_only_witness:
  "create_AugTransforms example_run example_plain module_world
     = (Inr [0, 1], snd (create_AugTransforms example_run example_plain module_world))
   \<and> create_AugTransforms example_run example_plain (snd (create_AugTransforms example_run example_plain module_world))
     = (Inr [2, 3],
        snd (create_AugTransforms example_run example_plain (snd (create_AugTransforms example_run example_plain module_world))))
   \<and> set [0, 1 :: nat] \<inter> set [2, 3] = {}
   \<and> BaseClassWiseAugmenter_init example_run example_five (Some example_classes) module_world
     = (Inr example_augmenter, snd (create_AugTransforms example_run example_five module_world))
   \<and> class_transforms example_augmenter = Some [''classA'' \<mapsto> [0, 2], ''classB'' \<mapsto> [4, 1, 1]]
   \<and> [''classA'' \<mapsto> [0, 2], ''classB'' \<mapsto> [4, 1, 1 :: nat]] ''classB'' = Some [4, 1, 1]
   \<and> set [4, 1, 1] \<subseteq> set (base_transforms example_augmenter)"
proof -
  let ?W1 = "snd (create_AugTransforms example_run example_plain module_world)"
  let ?W2 = "snd (create_AugTransforms example_run example_plain ?W1)"
  let ?ct = "[''classA'' \<mapsto> [0, 2], ''classB'' \<mapsto> [4, 1, 1 :: nat]]"
  have a: "create_AugTransforms example_run example_plain module_world = (Inr [0, 1], ?W1)"
    using example_plain_twice(1) by (simp add: prod_eq_iff)
  have b: "create_AugTransforms example_run example_plain ?W1 = (Inr [2, 3], ?W2)"
    using example_plain_twice(2) by (simp add: prod_eq_iff)
  have c: "class_transforms example_augmenter = Some ?ct" by (simp add: example_augmenter_def)
  have d: "?ct ''classB'' = Some [4, 1, 1]" by simp
  from pipelines_share_by_reference_only [of example_run example_plain module_world "[0, 1]" ?W1
      example_plain "[2, 3]" ?W2 example_five example_classes example_augmenter
      "snd (create_AugTransforms example_run example_five module_world)" ?ct "''classB''" "[4, 1, 1]"]
    a b c d example_init
  have "set [0, 1 :: nat] \<inter> set [2, 3] = {}"
    and "set [4, 1, 1] \<subseteq> set (base_transforms example_augmenter)" by blast+
  with a b c d example_init show ?thesis by blast
qed

section \<open>The registry during compilation\<close>
























section \<open>Square padding and the noise pool\<close>

lemma Image_new_Inr:
  "0 \<le> w \<Longrightarrow> 0 \<le> h \<Longrightarrow>
     Image_new (w, h) c = Inr \<lparr>width = nat w, height = nat h,
                              rows = replicate (nat h) (replicate (nat w) c)\<rparr>"
  by (simp add: Image_new_def)

lemma getpixel_new:
  "x < w \<Longrightarrow> y < h \<Longrightarrow>
     getpixel \<lparr>width = w, height = h, rows = replicate h (replicate w c)\<rparr> x y = c"
  by (simp add: getpixel_def)

lemma paste_size [simp]:
  "width (paste im src box) = width im" "height (paste im src box) = height im"
  by (simp_all add: paste_def)

lemma paste_valid: "valid_image (paste im src box)"
  by (simp add: paste_def valid_image_def list_all_iff)

lemma paste_pixel:
  "x < width im \<Longrightarrow> y < height im \<Longrightarrow>
     getpixel (paste im src box) x y =
       (if in_box src box x y
        then getpixel src (nat (int x - fst box)) (nat (int y - snd box))
        else getpixel im x y)"
  by (simp add: paste_def getpixel_def)

lemma valid_image_eqI:
  assumes "valid_image a" "valid_image b" "width a = width b" "height a = height b"
    and "\<And>x y. x < width a \<Longrightarrow> y < height a \<Longrightarrow> getpixel a x y = getpixel b x y"
  shows "a = (b :: image)"
proof -
  have "rows a = rows b"
  proof (rule nth_equalityI)
    show "length (rows a) = length (rows b)" using assms(1,2,4) by (simp add: valid_image_def)
  next
    fix y assume y: "y < length (rows a)"
    then have ya: "y < height a" using assms(1) by (simp add: valid_image_def)
    have la: "length (rows a ! y) = width a"
      using assms(1) y by (simp add: valid_image_def list_all_length)
    have lb: "length (rows b ! y) = width b"
      using assms(2,4) ya by (simp add: valid_image_def list_all_length)
    show "rows a ! y = rows b ! y"
    proof (rule nth_equalityI)
      show "length (rows a ! y) = length (rows b ! y)" using la lb assms(3) by simp
    next
      fix x assume "x < length (rows a ! y)"
      then have "x < width a" using la by simp
      from assms(5) [OF this ya] show "rows a ! y ! x = rows b ! y ! x"
        by (simp add: getpixel_def)
    qed
  qed
  then show ?thesis using assms(3,4) by simp
qed

text \<open>
  Claim C6. Square padding always returns a valid square image whose side is the
  larger of the input's width and height. Inside the box at the mode's offset the
  output shows the input, elsewhere the fill value. In \<open>average\<close> mode the offset is
  half the difference on each axis, rounded down, so the padding before and after
  the input differs by at most one pixel; in \<open>edge\<close> mode the offset is the whole
  difference, so the input ends flush with the far edge on both axes and all the
  padding lies before it.
\<close>

theorem PadIfNeed_call_square:
  "\<exists>out. PadIfNeed_call self img = Inr out
     \<and> width out = max (width img) (height img)
     \<and> height out = max (width img) (height img)
     \<and> valid_image out
     \<and> (\<forall>x y. x < width out \<and> y < height out \<longrightarrow>
           getpixel out x y =
             (if fst (pad_offset (mode self) img) \<le> x
                 \<and> x < fst (pad_offset (mode self) img) + width img
                 \<and> snd (pad_offset (mode self) img) \<le> y
                 \<and> y < snd (pad_offset (mode self) img) + height img
              then getpixel img (x - fst (pad_offset (mode self) img))
                               (y - snd (pad_offset (mode self) img))
              else pad_value self))
     \<and> (mode self = ''average'' \<longrightarrow>
           fst (pad_offset (mode self) img) = (max (width img) (height img) - width img) div 2
           \<and> snd (pad_offset (mode self) img) = (max (width img) (height img) - height img) div 2
           \<and> (max (width img) (height img) - width img) - 2 * fst (pad_offset (mode self) img) \<le> 1
           \<and> (max (width img) (height img) - height img) - 2 * snd (pad_offset (mode self) img) \<le> 1)
     \<and> (mode self = ''edge'' \<longrightarrow>
           fst (pad_offset (mode self) img) + width img = max (width img) (height img)
           \<and> snd (pad_offset (mode self) img) + height img = max (width img) (height img))"
proof -
  let ?m = "max (width img) (height img)"
  let ?ox = "fst (pad_offset (mode self) img)"
  let ?oy = "snd (pad_offset (mode self) img)"
  let ?new = "\<lparr>width = ?m, height = ?m, rows = replicate ?m (replicate ?m (pad_value self))\<rparr>"
  let ?out = "paste ?new img (int ?ox, int ?oy)"
  have mx: "max (int (width img)) (int (height img)) = int ?m" by simp
  have new: "Image_new (max (int (width img)) (int (height img)),
                        max (int (width img)) (int (height img))) (pad_value self) = Inr ?new"
    unfolding mx by (simp add: Image_new_def)
  have off: "mode self = ''average'' \<Longrightarrow>
       ((max (int (width img)) (int (height img)) - int (width img)) div 2,
        (max (int (width img)) (int (height img)) - int (height img)) div 2) = (int ?ox, int ?oy)"
    "mode self \<noteq> ''average'' \<Longrightarrow>
       (max (int (width img)) (int (height img)) - int (width img),
        max (int (width img)) (int (height img)) - int (height img)) = (int ?ox, int ?oy)"
    by (auto simp: pad_offset_def Let_def zdiv_int)
  have call: "PadIfNeed_call self img = Inr ?out"
    using off by (cases "mode self = ''average''") (simp_all add: PadIfNeed_call_def Let_def new)
  have px: "\<forall>x y. x < width ?out \<and> y < height ?out \<longrightarrow>
           getpixel ?out x y =
             (if ?ox \<le> x \<and> x < ?ox + width img \<and> ?oy \<le> y \<and> y < ?oy + height img
              then getpixel img (x - ?ox) (y - ?oy) else pad_value self)"
  proof (intro allI impI)
    fix x y assume "x < width ?out \<and> y < height ?out"
    then have b: "x < ?m" "y < ?m" by simp_all
    have "getpixel ?out x y =
        (if in_box img (int ?ox, int ?oy) x y
         then getpixel img (nat (int x - int ?ox)) (nat (int y - int ?oy))
         else getpixel ?new x y)"
      using b by (simp add: paste_pixel)
    moreover have "in_box img (int ?ox, int ?oy) x y \<longleftrightarrow>
        ?ox \<le> x \<and> x < ?ox + width img \<and> ?oy \<le> y \<and> y < ?oy + height img"
      by (auto simp: in_box_def)
    moreover have "getpixel ?new x y = pad_value self" using b by (simp add: getpixel_new)
    moreover have "nat (int x - int ?ox) = x - ?ox" "nat (int y - int ?oy) = y - ?oy"
      by simp_all
    ultimately show "getpixel ?out x y =
             (if ?ox \<le> x \<and> x < ?ox + width img \<and> ?oy \<le> y \<and> y < ?oy + height img
              then getpixel img (x - ?ox) (y - ?oy) else pad_value self)"
      by simp
  qed
  have avg: "mode self = ''average'' \<longrightarrow>
           ?ox = (?m - width img) div 2 \<and> ?oy = (?m - height img) div 2
           \<and> (?m - width img) - 2 * ?ox \<le> 1 \<and> (?m - height img) - 2 * ?oy \<le> 1"
    by (auto simp: pad_offset_def Let_def)
  have edge: "mode self = ''edge'' \<longrightarrow> ?ox + width img = ?m \<and> ?oy + height img = ?m"
    by (auto simp: pad_offset_def Let_def)
  show ?thesis
  proof (intro exI [of _ ?out] conjI)
    show "PadIfNeed_call self img = Inr ?out" by (rule call)
    show "width ?out = ?m" by simp
    show "height ?out = ?m" by simp
    show "valid_image ?out" by (rule paste_valid)
    show "\<forall>x y. x < width ?out \<and> y < height ?out \<longrightarrow>
           getpixel ?out x y =
             (if ?ox \<le> x \<and> x < ?ox + width img \<and> ?oy \<le> y \<and> y < ?oy + height img
              then getpixel img (x - ?ox) (y - ?oy) else pad_value self)" by (rule px)
    show "mode self = ''average'' \<longrightarrow>
           ?ox = (?m - width img) div 2 \<and> ?oy = (?m - height img) div 2
           \<and> (?m - width img) - 2 * ?ox \<le> 1 \<and> (?m - height img) - 2 * ?oy \<le> 1"
      by (rule avg)
    show "mode self = ''edge'' \<longrightarrow> ?ox + width img = ?m \<and> ?oy + height img = ?m"
      by (rule edge)
  qed
qed

lemma example_image_facts:
  "width example_image = 4" "height example_image = 2"
  "getpixel example_image 2 0 = (3, 3, 3)"
  "pad_offset ''average'' example_image = (0, 1)"
  "pad_offset ''edge'' example_image = (0, 2)"
  by (simp_all add: example_image_def getpixel_def pad_offset_def)

theorem PadIfNeed_call_square_witness:
  "(\<exists>out. PadIfNeed_call \<lparr>pad_value = (128, 128, 128), mode = ''average''\<rparr> example_image = Inr out
      \<and> width out = 4 \<and> height out = 4
      \<and> getpixel out 2 1 = (3, 3, 3) \<and> getpixel out 2 0 = (128, 128, 128)
      \<and> getpixel out 2 3 = (128, 128, 128))
   \<and> (\<exists>out. PadIfNeed_call \<lparr>pad_value = (128, 128, 128), mode = ''edge''\<rparr> example_image = Inr out
      \<and> width out = 4 \<and> height out = 4
      \<and> getpixel out 2 2 = (3, 3, 3) \<and> getpixel out 2 0 = (128, 128, 128)
      \<and> getpixel out 2 1 = (128, 128, 128))"
proof
  let ?a = "\<lparr>pad_value = (128, 128, 128), mode = ''average''\<rparr>"
  from PadIfNeed_call_square [of ?a example_image] obtain out
    where o: "PadIfNeed_call ?a example_image = Inr out"
      "width out = max (width example_image) (height example_image)"
      "height out = max (width example_image) (height example_image)"
      and px: "\<And>x y. x < width out \<and> y < height out \<Longrightarrow>
           getpixel out x y =
             (if fst (pad_offset (mode ?a) example_image) \<le> x
                 \<and> x < fst (pad_offset (mode ?a) example_image) + width example_image
                 \<and> snd (pad_offset (mode ?a) example_image) \<le> y
                 \<and> y < snd (pad_offset (mode ?a) example_image) + height example_image
              then getpixel example_image (x - fst (pad_offset (mode ?a) example_image))
                               (y - snd (pad_offset (mode ?a) example_image))
              else pad_value ?a)"
    by blast
  have s: "width out = 4" "height out = 4" using o(2,3) by (simp_all add: example_image_facts)
  have "getpixel out 2 1 = (3, 3, 3)" "getpixel out 2 0 = (128, 128, 128)"
    "getpixel out 2 3 = (128, 128, 128)"
    using px [of 2 1] px [of 2 0] px [of 2 3] s by (simp_all add: example_image_facts)
  with o(1) s show "\<exists>out. PadIfNeed_call ?a example_image = Inr out
      \<and> width out = 4 \<and> height out = 4
      \<and> getpixel out 2 1 = (3, 3, 3) \<and> getpixel out 2 0 = (128, 128, 128)
      \<and> getpixel out 2 3 = (128, 128, 128)" by blast
next
  let ?e = "\<lparr>pad_value = (128, 128, 128), mode = ''edge''\<rparr>"
  from PadIfNeed_call_square [of ?e example_image] obtain out
    where o: "PadIfNeed_call ?e example_image = Inr out"
      "width out = max (width example_image) (height example_image)"
      "height out = max (width example_image) (height example_image)"
      and px: "\<And>x y. x < width out \<and> y < height out \<Longrightarrow>
           getpixel out x y =
             (if fst (pad_offset (mode ?e) example_image) \<le> x
                 \<and> x < fst (pad_offset (mode ?e) example_image) + width example_image
                 \<and> snd (pad_offset (mode ?e) example_image) \<le> y
                 \<and> y < snd (pad_offset (mode ?e) example_image) + height example_image
              then getpixel example_image (x - fst (pad_offset (mode ?e) example_image))
                               (y - snd (pad_offset (mode ?e) example_image))
              else pad_value ?e)"
    by blast
  have s: "width out = 4" "height out = 4" using o(2,3) by (simp_all add: example_image_facts)
  have "getpixel out 2 2 = (3, 3, 3)" "getpixel out 2 0 = (128, 128, 128)"
    "getpixel out 2 1 = (128, 128, 128)"
    using px [of 2 2] px [of 2 0] px [of 2 1] s by (simp_all add: example_image_facts)
  with o(1) s show "\<exists>out. PadIfNeed_call ?e example_image = Inr out
      \<and> width out = 4 \<and> height out = 4
      \<and> getpixel out 2 2 = (3, 3, 3) \<and> getpixel out 2 0 = (128, 128, 128)
      \<and> getpixel out 2 1 = (128, 128, 128)" by blast
qed

text \<open>
  Claim C9. When the noise directory lists no name ending in \<open>.jpg\<close> (or does not
  exist), constructing the patch-replace transform raises: the glob is empty and
  \<open>self.noisy[0]\<close> is an \<open>IndexError\<close>. No transform object is returned, so no
  image can be processed with it.
\<close>

theorem CutAddNoise_init_no_jpg:
  "list_all (\<lambda>name. \<not> suffix ''.jpg'' name) (listdir noisy_src) \<longrightarrow>
     CutAddNoise_init listdir n len noisy_src hr wr p = Inl (IndexError ''list index out of range'')"
proof
  assume "list_all (\<lambda>name. \<not> suffix ''.jpg'' name) (listdir noisy_src)"
  then have "filter (\<lambda>name. suffix ''.jpg'' name \<and> \<not> prefix ''.'' name) (listdir noisy_src) = []"
    by (auto simp: list_all_iff filter_empty_conv)
  then show "CutAddNoise_init listdir n len noisy_src hr wr p
      = Inl (IndexError ''list index out of range'')"
    by (simp add: CutAddNoise_init_def glob_jpg_def)
qed

theorem CutAddNoise_init_no_jpg_witness:
  "list_all (\<lambda>name. \<not> suffix ''.jpg'' name) (example_listdir ''noise'')
   \<and> CutAddNoise_init example_listdir 1 200 ''noise'' None None (1 / 2)
       = Inl (IndexError ''list index out of range'')
   \<and> CutAddNoise_init example_listdir 1 200 ''missing'' None None (1 / 2)
       = Inl (IndexError ''list index out of range'')"
proof -
  have a: "list_all (\<lambda>name. \<not> suffix ''.jpg'' name) (example_listdir ''noise'')"
    by (simp add: example_listdir_def suffix_def)
  have b: "list_all (\<lambda>name. \<not> suffix ''.jpg'' name) (example_listdir ''missing'')"
    by (simp add: example_listdir_def)
  from a b CutAddNoise_init_no_jpg [of example_listdir "''noise''" 1 200 None None "1 / 2"]
    CutAddNoise_init_no_jpg [of example_listdir "''missing''" 1 200 None None "1 / 2"]
  show ?thesis by blast
qed

section \<open>Patch cutout\<close>

lemma np_randint_Inr:
  "fst b < snd b \<Longrightarrow>
     np_randint b g = (Inr (fst b + int (np_stream g (np_pos g) mod nat (snd b - fst b))),
                       g\<lparr>np_pos := Suc (np_pos g)\<rparr>)"
  by (cases b) (simp add: np_randint_def)

lemma hole_center_shift:
  "hole_center h w (g\<lparr>np_pos := Suc (Suc (np_pos g))\<rparr>) i = hole_center h w g (Suc i)"
  by (simp add: hole_center_def)

lemma holes_loop_run:
  assumes "fst h < snd h" "fst w < snd w"
  shows "holes_loop n len h w mask_im img g =
           (Inr (fold (\<lambda>b im. paste im mask_im b)
                      (map (\<lambda>i. hole_corner len (hole_center h w g i)) [0..<n]) img),
            g\<lparr>np_pos := np_pos g + 2 * n\<rparr>)"
proof (induction n arbitrary: img g)
  case 0
  show ?case by simp
next
  case (Suc k)
  let ?g1 = "g\<lparr>np_pos := Suc (np_pos g)\<rparr>"
  let ?g2 = "g\<lparr>np_pos := Suc (Suc (np_pos g))\<rparr>"
  let ?c0 = "hole_corner len (hole_center h w g 0)"
  have y: "np_randint h g = (Inr (snd (hole_center h w g 0)), ?g1)"
    using np_randint_Inr [OF assms(1), of g] by (simp add: hole_center_def)
  have x: "np_randint w ?g1 = (Inr (fst (hole_center h w g 0)), ?g2)"
    using np_randint_Inr [OF assms(2), of ?g1] by (simp add: hole_center_def)
  have step: "holes_loop (Suc k) len h w mask_im img g =
      holes_loop k len h w mask_im (paste img mask_im ?c0) ?g2"
    by (simp add: y x hole_corner_def Let_def)
  have idx: "map (\<lambda>i. hole_corner len (hole_center h w g i)) [0..<Suc k] =
      ?c0 # map (\<lambda>i. hole_corner len (hole_center h w ?g2 i)) [0..<k]"
    by (simp add: upt_conv_Cons map_Suc_upt [symmetric] hole_center_shift del: upt_Suc)
  show ?case
    unfolding step Suc.IH idx by simp
qed

lemma fold_paste_size:
  "width (fold (\<lambda>b im. paste im src b) bs img) = width img"
  "height (fold (\<lambda>b im. paste im src b) bs img) = height img"
  by (induction bs arbitrary: img) simp_all

lemma fold_paste_valid:
  "valid_image img \<Longrightarrow> valid_image (fold (\<lambda>b im. paste im src b) bs img)"
  by (induction bs arbitrary: img) (simp_all add: paste_valid)

lemma fold_paste_pixel:
  assumes "\<And>x' y'. x' < width src \<Longrightarrow> y' < height src \<Longrightarrow> getpixel src x' y' = c"
    and "x < width img" "y < height img"
  shows "getpixel (fold (\<lambda>b im. paste im src b) bs img) x y =
           (if list_ex (\<lambda>b. in_box src b x y) bs then c else getpixel img x y)"
  using assms(2,3)
proof (induction bs arbitrary: img rule: rev_induct)
  case Nil
  show ?case by simp
next
  case (snoc b bs)
  let ?im = "fold (\<lambda>b im. paste im src b) bs img"
  have sz: "x < width ?im" "y < height ?im" using snoc.prems by (simp_all add: fold_paste_size)
  have "getpixel (paste ?im src b) x y =
      (if in_box src b x y then getpixel src (nat (int x - fst b)) (nat (int y - snd b))
       else getpixel ?im x y)"
    using sz by (rule paste_pixel)
  moreover have "in_box src b x y \<Longrightarrow>
      getpixel src (nat (int x - fst b)) (nat (int y - snd b)) = c"
    by (rule assms(1)) (auto simp: in_box_def split: prod.splits)
  ultimately show ?case using snoc.IH [OF snoc.prems] by auto
qed

lemma hole_corners_np:
  "np_stream g' = np_stream g \<Longrightarrow> np_pos g' = np_pos g \<Longrightarrow>
     hole_center h w g' i = hole_center h w g i"
  by (simp add: hole_center_def)

lemma Cutout_call_skip:
  "prob self < py_stream g (py_pos g) \<Longrightarrow>
     Cutout_call self img g = (Inr img, g\<lparr>py_pos := Suc (py_pos g)\<rparr>)"
  by (simp add: Cutout_call_def random_random_def)

lemma Cutout_call_apply:
  assumes "py_stream g (py_pos g) \<le> prob self"
    and "0 \<le> mask_width self g" "0 \<le> length_px self"
    and "fst (sample_h self img) < snd (sample_h self img)"
    and "fst (sample_w self img) < snd (sample_w self img)"
  shows "Cutout_call self img g =
           (Inr (fold (\<lambda>b im. paste im (black_mask self g) b) (hole_corners self img g) img),
            g\<lparr>py_pos := Suc (Suc (py_pos g)),
              np_pos := np_pos g + 2 * nat (n_holes self)\<rparr>)"
proof -
  let ?g1 = "g\<lparr>py_pos := Suc (py_pos g)\<rparr>"
  let ?g2 = "g\<lparr>py_pos := Suc (Suc (py_pos g))\<rparr>"
  have gate: "random_random g = (py_stream g (py_pos g), ?g1)" by (simp add: random_random_def)
  have uni: "random_uniform (1 - ratio self) (1 + ratio self) ?g1 = (width_factor self g, ?g2)"
    by (simp add: random_uniform_def random_random_def width_factor_def)
  have new: "Image_new (mask_width self g, length_px self) black = Inr (black_mask self g)"
    using assms(2,3) by (simp add: Image_new_def black_mask_def)
  have centers: "map (\<lambda>i. hole_corner (length_px self)
                        (hole_center (sample_h self img) (sample_w self img) ?g2 i))
                     [0..<nat (n_holes self)] = hole_corners self img g"
    by (simp add: hole_corners_def hole_center_def)
  have loop: "holes_loop (nat (n_holes self)) (length_px self) (sample_h self img) (sample_w self img)
        (black_mask self g) img ?g2 =
      (Inr (fold (\<lambda>b im. paste im (black_mask self g) b) (hole_corners self img g) img),
       ?g2\<lparr>np_pos := np_pos ?g2 + 2 * nat (n_holes self)\<rparr>)"
    unfolding holes_loop_run [OF assms(4,5)] centers by simp
  have "Cutout_call self img g =
      holes_loop (nat (n_holes self)) (length_px self) (sample_h self img) (sample_w self img)
        (black_mask self g) img ?g2"
    using assms(1)
    by (simp add: Cutout_call_def gate uni new Let_def mask_width_def [symmetric]
        sample_h_def [symmetric] sample_w_def [symmetric])
  then show ?thesis unfolding loop by simp
qed

lemma black_mask_pixel:
  "x' < width (black_mask self g) \<Longrightarrow> y' < height (black_mask self g) \<Longrightarrow>
     getpixel (black_mask self g) x' y' = black"
  by (simp add: black_mask_def getpixel_def)

lemma covered_in_box:
  assumes "0 \<le> mask_width self g" "0 \<le> length_px self"
  shows "list_ex (\<lambda>b. in_box (black_mask self g) b x y) bs
           = covered (mask_width self g) (length_px self) bs x y"
  using assms by (simp add: covered_def in_box_def black_mask_def split_beta)

lemma width_factor_bounds:
  assumes "0 \<le> ratio self" "0 \<le> py_stream g (Suc (py_pos g))" "py_stream g (Suc (py_pos g)) \<le> 1"
  shows "1 - ratio self \<le> width_factor self g" "width_factor self g \<le> 1 + ratio self"
proof -
  let ?u = "py_stream g (Suc (py_pos g))"
  have e: "width_factor self g = 1 - ratio self + 2 * ratio self * ?u"
    by (simp add: width_factor_def algebra_simps)
  have "0 \<le> 2 * ratio self * ?u" using assms(1,2) by simp
  then show "1 - ratio self \<le> width_factor self g" unfolding e by simp
  have "ratio self * ?u \<le> ratio self * 1" using assms(1,3) by (intro mult_left_mono) simp_all
  then show "width_factor self g \<le> 1 + ratio self" unfolding e by simp
qed

text \<open>
  Claim C2, amended. When the apply branch is taken (and the mask size is not negative
  and the sampling ranges are not empty), the call returns an image of the input's
  size in which a pixel is black when one of the \<open>n\<close> holes covers it and is the
  input's pixel otherwise. Every hole is \<open>L\<close> high and \<open>int(L * U)\<close> wide, for one
  factor \<open>U\<close> drawn once per call and shared by all holes: the call consumes two
  numbers of Python's generator, the gate and \<open>U\<close>, however many holes there are.
  \<open>U\<close> lies between \<open>1 - r\<close> and \<open>1 + r\<close>. The corner of a hole is its sampled
  centre minus \<open>L // 2\<close> on each axis, clamped at zero; holes may overlap.
\<close>

theorem Cutout_call_holes:
  "(py_stream g (py_pos g) \<le> prob self \<and> 0 \<le> mask_width self g \<and> 0 \<le> length_px self
      \<and> fst (sample_h self img) < snd (sample_h self img)
      \<and> fst (sample_w self img) < snd (sample_w self img)
    \<longrightarrow> (\<exists>out g'. Cutout_call self img g = (Inr out, g')
           \<and> py_pos g' = py_pos g + 2
           \<and> np_pos g' = np_pos g + 2 * nat (n_holes self)
           \<and> width out = width img \<and> height out = height img
           \<and> (\<forall>x y. x < width img \<and> y < height img \<longrightarrow>
                 getpixel out x y =
                   (if covered (mask_width self g) (length_px self) (hole_corners self img g) x y
                    then black else getpixel img x y))))
   \<and> (0 \<le> ratio self \<and> 0 \<le> py_stream g (Suc (py_pos g)) \<and> py_stream g (Suc (py_pos g)) \<le> 1
    \<longrightarrow> 1 - ratio self \<le> width_factor self g \<and> width_factor self g \<le> 1 + ratio self)
   \<and> list_all (\<lambda>b. 0 \<le> fst b \<and> 0 \<le> snd b) (hole_corners self img g)"
proof (intro conjI impI)
  assume a: "py_stream g (py_pos g) \<le> prob self \<and> 0 \<le> mask_width self g \<and> 0 \<le> length_px self
      \<and> fst (sample_h self img) < snd (sample_h self img)
      \<and> fst (sample_w self img) < snd (sample_w self img)"
  let ?out = "fold (\<lambda>b im. paste im (black_mask self g) b) (hole_corners self img g) img"
  let ?g' = "g\<lparr>py_pos := Suc (Suc (py_pos g)), np_pos := np_pos g + 2 * nat (n_holes self)\<rparr>"
  have call: "Cutout_call self img g = (Inr ?out, ?g')"
    using a by (intro Cutout_call_apply) simp_all
  have px: "\<forall>x y. x < width img \<and> y < height img \<longrightarrow>
                 getpixel ?out x y =
                   (if covered (mask_width self g) (length_px self) (hole_corners self img g) x y
                    then black else getpixel img x y)"
  proof (intro allI impI)
    fix x y assume b: "x < width img \<and> y < height img"
    have "getpixel ?out x y =
        (if list_ex (\<lambda>b. in_box (black_mask self g) b x y) (hole_corners self img g)
         then black else getpixel img x y)"
      using b by (intro fold_paste_pixel black_mask_pixel) simp_all
    then show "getpixel ?out x y =
                   (if covered (mask_width self g) (length_px self) (hole_corners self img g) x y
                    then black else getpixel img x y)"
      using a by (simp add: covered_in_box)
  qed
  show "\<exists>out g'. Cutout_call self img g = (Inr out, g')
           \<and> py_pos g' = py_pos g + 2
           \<and> np_pos g' = np_pos g + 2 * nat (n_holes self)
           \<and> width out = width img \<and> height out = height img
           \<and> (\<forall>x y. x < width img \<and> y < height img \<longrightarrow>
                 getpixel out x y =
                   (if covered (mask_width self g) (length_px self) (hole_corners self img g) x y
                    then black else getpixel img x y))"
  proof (intro exI [of _ ?out] exI [of _ ?g'] conjI)
    show "Cutout_call self img g = (Inr ?out, ?g')" by (rule call)
    show "py_pos ?g' = py_pos g + 2" by simp
    show "np_pos ?g' = np_pos g + 2 * nat (n_holes self)" by simp
    show "width ?out = width img" by (rule fold_paste_size)
    show "height ?out = height img" by (rule fold_paste_size)
    show "\<forall>x y. x < width img \<and> y < height img \<longrightarrow>
                 getpixel ?out x y =
                   (if covered (mask_width self g) (length_px self) (hole_corners self img g) x y
                    then black else getpixel img x y)" by (rule px)
  qed
next
  assume "0 \<le> ratio self \<and> 0 \<le> py_stream g (Suc (py_pos g)) \<and> py_stream g (Suc (py_pos g)) \<le> 1"
  then show "1 - ratio self \<le> width_factor self g" "width_factor self g \<le> 1 + ratio self"
    by (simp_all add: width_factor_bounds)
next
  show "list_all (\<lambda>b. 0 \<le> fst b \<and> 0 \<le> snd b) (hole_corners self img g)"
    by (simp add: hole_corners_def hole_corner_def list_all_iff)
qed

text \<open>
  Claim C7, amended. With apply probability zero and a gate draw above zero the call
  returns the input image itself. With apply probability one the apply branch is
  always taken, and the returned image differs from a well-formed input exactly when
  some pixel under a hole was not black.
\<close>

theorem Cutout_call_gate:
  "(prob self = 0 \<and> 0 < py_stream g (py_pos g)
    \<longrightarrow> Cutout_call self img g = (Inr img, g\<lparr>py_pos := Suc (py_pos g)\<rparr>))
   \<and> (prob self = 1 \<and> py_stream g (py_pos g) < 1 \<and> valid_image img
        \<and> 0 \<le> mask_width self g \<and> 0 \<le> length_px self
        \<and> fst (sample_h self img) < snd (sample_h self img)
        \<and> fst (sample_w self img) < snd (sample_w self img)
    \<longrightarrow> (\<exists>out g'. Cutout_call self img g = (Inr out, g')
           \<and> py_pos g' = py_pos g + 2
           \<and> (out \<noteq> img \<longleftrightarrow>
                (\<exists>x y. x < width img \<and> y < height img
                   \<and> covered (mask_width self g) (length_px self) (hole_corners self img g) x y
                   \<and> getpixel img x y \<noteq> black))))"
proof (intro conjI impI)
  assume "prob self = 0 \<and> 0 < py_stream g (py_pos g)"
  then show "Cutout_call self img g = (Inr img, g\<lparr>py_pos := Suc (py_pos g)\<rparr>)"
    by (intro Cutout_call_skip) simp
next
  assume a: "prob self = 1 \<and> py_stream g (py_pos g) < 1 \<and> valid_image img
        \<and> 0 \<le> mask_width self g \<and> 0 \<le> length_px self
        \<and> fst (sample_h self img) < snd (sample_h self img)
        \<and> fst (sample_w self img) < snd (sample_w self img)"
  let ?out = "fold (\<lambda>b im. paste im (black_mask self g) b) (hole_corners self img g) img"
  let ?g' = "g\<lparr>py_pos := Suc (Suc (py_pos g)), np_pos := np_pos g + 2 * nat (n_holes self)\<rparr>"
  let ?cov = "covered (mask_width self g) (length_px self) (hole_corners self img g)"
  have call: "Cutout_call self img g = (Inr ?out, ?g')"
    using a by (intro Cutout_call_apply) simp_all
  have px: "\<And>x y. x < width img \<Longrightarrow> y < height img \<Longrightarrow>
      getpixel ?out x y = (if ?cov x y then black else getpixel img x y)"
  proof -
    fix x y assume b: "x < width img" "y < height img"
    have "getpixel ?out x y =
        (if list_ex (\<lambda>b. in_box (black_mask self g) b x y) (hole_corners self img g)
         then black else getpixel img x y)"
      using b by (intro fold_paste_pixel black_mask_pixel) simp_all
    then show "getpixel ?out x y = (if ?cov x y then black else getpixel img x y)"
      using a by (simp add: covered_in_box)
  qed
  have v: "valid_image ?out" using a by (simp add: fold_paste_valid)
  have sz: "width ?out = width img" "height ?out = height img" by (rule fold_paste_size)+
  have iff: "?out \<noteq> img \<longleftrightarrow>
      (\<exists>x y. x < width img \<and> y < height img \<and> ?cov x y \<and> getpixel img x y \<noteq> black)"
  proof
    assume ne: "?out \<noteq> img"
    show "\<exists>x y. x < width img \<and> y < height img \<and> ?cov x y \<and> getpixel img x y \<noteq> black"
    proof (rule ccontr)
      assume n: "\<not> (\<exists>x y. x < width img \<and> y < height img \<and> ?cov x y \<and> getpixel img x y \<noteq> black)"
      have "?out = img"
      proof (rule valid_image_eqI)
        show "valid_image ?out" by (rule v)
        show "valid_image img" using a by simp
        show "width ?out = width img" by (rule sz)
        show "height ?out = height img" by (rule sz)
      next
        fix x y assume "x < width ?out" "y < height ?out"
        then have b: "x < width img" "y < height img" by (simp_all add: sz)
        from px [OF b] n b show "getpixel ?out x y = getpixel img x y" by auto
      qed
      with ne show False by simp
    qed
  next
    assume "\<exists>x y. x < width img \<and> y < height img \<and> ?cov x y \<and> getpixel img x y \<noteq> black"
    then obtain x y where b: "x < width img" "y < height img" "?cov x y" "getpixel img x y \<noteq> black"
      by blast
    from px [OF b(1,2)] b(3) have "getpixel ?out x y = black" by simp
    with b(4) show "?out \<noteq> img" by auto
  qed
  show "\<exists>out g'. Cutout_call self img g = (Inr out, g')
           \<and> py_pos g' = py_pos g + 2
           \<and> (out \<noteq> img \<longleftrightarrow>
                (\<exists>x y. x < width img \<and> y < height img \<and> ?cov x y \<and> getpixel img x y \<noteq> black))"
  proof (intro exI [of _ ?out] exI [of _ ?g'] conjI)
    show "Cutout_call self img g = (Inr ?out, ?g')" by (rule call)
    show "py_pos ?g' = py_pos g + 2" by simp
    show "?out \<noteq> img \<longleftrightarrow>
      (\<exists>x y. x < width img \<and> y < height img \<and> ?cov x y \<and> getpixel img x y \<noteq> black)"
      by (rule iff)
  qed
qed

lemma upt_4: "[0..<4] = [0, 1, 2, 3]" "[0..<2] = [0, 1]"
  by (simp_all add: upt_conv_Cons)

lemma paste_white_0:
  "paste example_white example_mask_narrow (0, 0)
     = example_one_column"
  by (simp add: paste_def example_white_def example_one_column_def in_box_def getpixel_def upt_4
      example_mask_narrow_def example_mask_wide_def)

lemma paste_col_0:
  "paste example_one_column example_mask_narrow (0, 0)
     = example_one_column"
  by (simp add: paste_def example_one_column_def in_box_def getpixel_def upt_4
      example_mask_narrow_def example_mask_wide_def)

lemma paste_col_wide:
  "paste example_one_column example_mask_wide (0, 0)
     = example_two_columns"
  by (simp add: paste_def example_one_column_def example_two_columns_def in_box_def
      getpixel_def upt_4 example_mask_narrow_def example_mask_wide_def)

lemma paste_black_0:
  "paste example_black example_mask_narrow (0, 0)
     = example_black"
  by (simp add: paste_def example_black_def in_box_def getpixel_def upt_4
      example_mask_narrow_def example_mask_wide_def)

lemma new_1: "Image_new (1, 2) black = Inr example_mask_narrow"
  by (simp add: Image_new_def black_def numeral_2_eq_2 example_mask_narrow_def
      example_mask_wide_def)

lemma new_2: "Image_new (2, 2) black = Inr example_mask_wide"
  by (simp add: Image_new_def black_def numeral_2_eq_2 example_mask_narrow_def
      example_mask_wide_def)

lemma example_sizes:
  "width example_white = 4" "height example_white = 2"
  "width example_black = 4" "height example_black = 2"
  by (simp_all add: example_white_def example_black_def)

lemma holes_loop_two:
  "np_stream g = (\<lambda>i. 0) \<Longrightarrow>
     holes_loop 2 2 (0, 2) (0, 4) m img g
       = (Inr (paste (paste img m (0, 0)) m (0, 0)),
          g\<lparr>np_pos := Suc (Suc (Suc (Suc (np_pos g))))\<rparr>)"
  by (simp add: numeral_2_eq_2 np_randint_def)

lemma example_code_run:
  "fst (Cutout_call example_cutout example_white example_rng) = Inr example_one_column"
  by (simp add: Cutout_call_def random_random_def random_uniform_def example_cutout_def
      example_rng_def int_of_float_def new_1 holes_loop_two example_sizes
      paste_white_0 paste_col_0)

lemma example_black_run:
  "fst (Cutout_call example_cutout example_black example_rng) = Inr example_black"
  by (simp add: Cutout_call_def random_random_def random_uniform_def example_cutout_def
      example_rng_def int_of_float_def new_1 holes_loop_two example_sizes paste_black_0)

lemma claimed_two:
  "claimed_holes_loop 2 self h w img g =
     claimed_holes_loop (Suc (Suc 0)) self h w img g"
  by (simp add: numeral_2_eq_2)

lemma example_claimed_run:
  "fst (Cutout_claimed example_cutout example_white example_rng) = Inr example_two_columns"
  by (simp add: Cutout_claimed_def claimed_two random_random_def random_uniform_def
      example_cutout_def example_rng_def int_of_float_def new_1 new_2 np_randint_def
      sample_h_def sample_w_def example_sizes paste_white_0 paste_col_wide)

text \<open>
  With apply probability zero and a gate draw of exactly zero, the test
  \<open>random.random() > self.prob\<close> is false and the holes are painted.
\<close>

lemma example_never_run:
  "fst (Cutout_call example_never example_white example_rng) = Inr example_one_column"
  by (simp add: Cutout_call_def random_random_def random_uniform_def example_cutout_def
      example_never_def example_rng_def int_of_float_def new_1 holes_loop_two example_sizes
      paste_white_0 paste_col_0)

lemma example_hyps:
  "py_stream example_rng (py_pos example_rng) \<le> prob example_cutout"
  "py_stream example_rng (py_pos example_rng) < 1"
  "prob example_cutout = 1"
  "mask_width example_cutout example_rng = 1"
  "length_px example_cutout = 2"
  "n_holes example_cutout = 2"
  "sample_h example_cutout example_white = (0, 2)"
  "sample_w example_cutout example_white = (0, 4)"
  "width_factor example_cutout example_rng = 1 / 2"
  "ratio example_cutout = 1 / 2"
  "py_stream example_rng (Suc (py_pos example_rng)) = 0"
  "py_pos example_rng = 0" "np_pos example_rng = 0"
  "py_stream example_rng 0 = 0" "py_stream example_rng (Suc 0) = 0"
  by (simp_all add: example_cutout_def example_rng_def mask_width_def width_factor_def
      int_of_float_def sample_h_def sample_w_def example_sizes)

lemma example_corners:
  "hole_corners example_cutout example_white example_rng = [(0, 0), (0, 0)]"
  by (simp add: hole_corners_def example_hyps upt_4 hole_center_def hole_corner_def
      example_rng_def)

lemma example_white_valid: "valid_image example_white"
  by (simp add: valid_image_def example_white_def)

lemma example_white_pixels:
  "getpixel example_white 0 0 = (255, 255, 255)" "getpixel example_white 2 0 = (255, 255, 255)"
  by (simp_all add: getpixel_def example_white_def)

lemma example_covered:
  "covered 1 2 [(0, 0), (0, 0)] 0 0" "\<not> covered 1 2 [(0, 0), (0, 0)] 2 0"
  by (simp_all add: covered_def)

text \<open>
  Claim C2 as stated fails. With two holes, ratio one half and side two, the code
  paints both holes one pixel wide, since it draws the width factor once; were the
  factor drawn for each hole, the second draw of this random state (0.9) would make
  the second hole two pixels wide.
\<close>

theorem Cutout_width_per_hole_counterexample:
  "fst (Cutout_call example_cutout example_white example_rng) = Inr example_one_column
   \<and> fst (Cutout_claimed example_cutout example_white example_rng) = Inr example_two_columns
   \<and> example_one_column \<noteq> example_two_columns"
  by (simp add: example_code_run example_claimed_run example_one_column_def
      example_two_columns_def)

text \<open>
  Claim C7 as stated fails. With probability one, two holes and side two, an image
  that is black already comes back with the same pixels.
\<close>

theorem Cutout_black_image_counterexample:
  "prob example_cutout = 1 \<and> 1 \<le> n_holes example_cutout \<and> 0 < length_px example_cutout
   \<and> fst (Cutout_call example_cutout example_black example_rng) = Inr example_black"
  by (simp add: example_black_run example_hyps)

theorem Cutout_call_holes_witness:
  "py_stream example_rng (py_pos example_rng) \<le> prob example_cutout
   \<and> mask_width example_cutout example_rng = 1
   \<and> hole_corners example_cutout example_white example_rng = [(0, 0), (0, 0)]
   \<and> (\<exists>out g'. Cutout_call example_cutout example_white example_rng = (Inr out, g')
         \<and> py_pos g' = 2 \<and> np_pos g' = 4
         \<and> getpixel out 0 0 = black \<and> getpixel out 2 0 = (255, 255, 255))
   \<and> 1 / 2 \<le> width_factor example_cutout example_rng
   \<and> width_factor example_cutout example_rng \<le> 3 / 2"
proof -
  note t = Cutout_call_holes [of example_rng example_cutout example_white]
  have h: "py_stream example_rng (py_pos example_rng) \<le> prob example_cutout
      \<and> 0 \<le> mask_width example_cutout example_rng \<and> 0 \<le> length_px example_cutout
      \<and> fst (sample_h example_cutout example_white) < snd (sample_h example_cutout example_white)
      \<and> fst (sample_w example_cutout example_white) < snd (sample_w example_cutout example_white)"
    by (simp add: example_hyps)
  from t h obtain out g'
    where o: "Cutout_call example_cutout example_white example_rng = (Inr out, g')"
      "py_pos g' = py_pos example_rng + 2"
      "np_pos g' = np_pos example_rng + 2 * nat (n_holes example_cutout)"
      and px: "\<And>x y. x < width example_white \<and> y < height example_white \<Longrightarrow>
          getpixel out x y =
            (if covered (mask_width example_cutout example_rng) (length_px example_cutout)
                  (hole_corners example_cutout example_white example_rng) x y
             then black else getpixel example_white x y)"
    by blast
  have p: "getpixel out 0 0 = black" "getpixel out 2 0 = (255, 255, 255)"
    using px [of 0 0] px [of 2 0]
    by (simp_all add: example_hyps example_corners example_covered example_sizes
        example_white_pixels)
  have q: "py_pos g' = 2" "np_pos g' = 4" using o(2,3) by (simp_all add: example_hyps)
  have e: "\<exists>out g'. Cutout_call example_cutout example_white example_rng = (Inr out, g')
         \<and> py_pos g' = 2 \<and> np_pos g' = 4
         \<and> getpixel out 0 0 = black \<and> getpixel out 2 0 = (255, 255, 255)"
    using o(1) p q by blast
  have b: "0 \<le> ratio example_cutout \<and> 0 \<le> py_stream example_rng (Suc (py_pos example_rng))
      \<and> py_stream example_rng (Suc (py_pos example_rng)) \<le> 1"
    by (simp add: example_hyps)
  with t have "1 - ratio example_cutout \<le> width_factor example_cutout example_rng"
    "width_factor example_cutout example_rng \<le> 1 + ratio example_cutout" by blast+
  then have f: "1 / 2 \<le> width_factor example_cutout example_rng"
    "width_factor example_cutout example_rng \<le> 3 / 2"
    by (simp_all add: example_hyps)
  from e f example_hyps(1,4) example_corners show ?thesis by blast
qed

theorem Cutout_call_gate_witness:
  "prob example_never = 0
   \<and> 0 < py_stream example_rng_half (py_pos example_rng_half)
   \<and> Cutout_call example_never example_white example_rng_half
       = (Inr example_white, example_rng_half\<lparr>py_pos := Suc (py_pos example_rng_half)\<rparr>)
   \<and> prob example_cutout = 1
   \<and> py_stream example_rng (py_pos example_rng) < 1
   \<and> valid_image example_white
   \<and> (\<exists>out g'. Cutout_call example_cutout example_white example_rng = (Inr out, g')
         \<and> out \<noteq> example_white)"
proof -
  have a: "prob example_never = 0" "0 < py_stream example_rng_half (py_pos example_rng_half)"
    by (simp_all add: example_never_def example_rng_half_def)
  from Cutout_call_gate [of example_never example_rng_half example_white] a
  have s: "Cutout_call example_never example_white example_rng_half
       = (Inr example_white, example_rng_half\<lparr>py_pos := Suc (py_pos example_rng_half)\<rparr>)"
    by blast
  have h: "prob example_cutout = 1 \<and> py_stream example_rng (py_pos example_rng) < 1
      \<and> valid_image example_white
      \<and> 0 \<le> mask_width example_cutout example_rng \<and> 0 \<le> length_px example_cutout
      \<and> fst (sample_h example_cutout example_white) < snd (sample_h example_cutout example_white)
      \<and> fst (sample_w example_cutout example_white) < snd (sample_w example_cutout example_white)"
    by (simp add: example_hyps example_white_valid)
  from Cutout_call_gate [of example_cutout example_rng example_white] h obtain out g'
    where o: "Cutout_call example_cutout example_white example_rng = (Inr out, g')"
      and d: "out \<noteq> example_white \<longleftrightarrow>
          (\<exists>x y. x < width example_white \<and> y < height example_white
             \<and> covered (mask_width example_cutout example_rng) (length_px example_cutout)
                  (hole_corners example_cutout example_white example_rng) x y
             \<and> getpixel example_white x y \<noteq> black)"
    by blast
  have "0 < width example_white \<and> 0 < height example_white
      \<and> covered (mask_width example_cutout example_rng) (length_px example_cutout)
           (hole_corners example_cutout example_white example_rng) 0 0
      \<and> getpixel example_white 0 0 \<noteq> black"
    by (simp add: example_hyps example_corners example_covered example_sizes
        example_white_pixels black_def)
  with d have "out \<noteq> example_white" by blast
  with o have "\<exists>out g'. Cutout_call example_cutout example_white example_rng = (Inr out, g')
         \<and> out \<noteq> example_white" by blast
  with a s example_hyps(2,3) example_white_valid show ?thesis by blast
qed

end
